theory Spec2Isabelle
  imports Complex_Main "HOL-Library.Sublist" "HOL-Library.Char_ord" "HOL-Library.List_Lexorder"
begin

section \<open>Token bucket (src/lib/workflow/token-bucket.ts)\<close>

text \<open>
  The class \<^verbatim>\<open>TokenBucket\<close> has two mutable fields (\<^verbatim>\<open>tokens\<close>, \<^verbatim>\<open>lastRefill\<close>) and two
  read-only ones. \<^verbatim>\<open>Date.now()\<close> is an integer number of milliseconds and is passed to every
  method as the argument \<open>now\<close>, so that a method is a function from the clock reading and
  the old object to the returned value and the new object. The type \<open>'n\<close> is that of the
  numbers held in the fields.

  The methods are given twice. First over exact reals (no rounding, no NaN), which is the
  arithmetic the bounds on the token count are proved in. Then, at the end of this
  section, over the numbers of the JavaScript runtime, whose operations round; the first
  are the second at exact arithmetic.
\<close>

record 'n TokenBucket =
  tokens :: 'n
  lastRefill :: int
  tokensPerSecond :: 'n
  maxTokens :: 'n

text \<open>The constructor, run when the clock reads \<open>now\<close>.\<close>

definition newTokenBucket :: "int \<Rightarrow> real \<Rightarrow> real \<Rightarrow> real TokenBucket" where
  "newTokenBucket now tps cap =
     \<lparr>tokens = cap, lastRefill = now, tokensPerSecond = tps, maxTokens = cap\<rparr>"

definition refillTokens :: "int \<Rightarrow> real TokenBucket \<Rightarrow> real TokenBucket" where
  "refillTokens now b =
     (let elapsed = real_of_int (now - lastRefill b) / 1000;
          newTokens = elapsed * tokensPerSecond b
      in b\<lparr>tokens := min (maxTokens b) (tokens b + newTokens), lastRefill := now\<rparr>)"

definition tryConsume :: "int \<Rightarrow> real TokenBucket \<Rightarrow> bool \<times> real TokenBucket" where
  "tryConsume now b =
     (let b1 = refillTokens now b
      in if 1 \<le> tokens b1 then (True, b1\<lparr>tokens := tokens b1 - 1\<rparr>) else (False, b1))"

definition getTokenCount :: "int \<Rightarrow> real TokenBucket \<Rightarrow> real \<times> real TokenBucket" where
  "getTokenCount now b = (let b1 = refillTokens now b in (tokens b1, b1))"

text \<open>
  The time until the next token is a number of milliseconds, or \<^verbatim>\<open>Infinity\<close> when the
  refill rate is 0 (a division by zero in JavaScript).
\<close>

datatype wait_time = Millis real | Forever

definition getTimeUntilNextToken :: "int \<Rightarrow> real TokenBucket \<Rightarrow> wait_time \<times> real TokenBucket" where
  "getTimeUntilNextToken now b =
     (let b1 = refillTokens now b
      in if 1 \<le> tokens b1 then (Millis 0, b1)
         else if tokensPerSecond b1 = 0 then (Forever, b1)
         else (Millis ((1 - tokens b1) / tokensPerSecond b1 * 1000), b1))"

text \<open>
  \<^verbatim>\<open>waitForToken\<close> reads the clock once for \<^verbatim>\<open>startTime\<close>, then once per loop test and
  once more inside each \<^verbatim>\<open>tryConsume\<close>; between two rounds it sleeps 100 ms. The readings
  it observes are given as a list. The loop may go on for as long as the clock stays
  below the deadline, so the outcome is \<open>None\<close> when the given readings end before the
  loop does; the bucket returned is the object as it is at that moment.
\<close>

fun waitForToken_loop ::
  "int \<Rightarrow> real \<Rightarrow> int list \<Rightarrow> real TokenBucket \<Rightarrow> bool option \<times> real TokenBucket" where
  "waitForToken_loop startTime timeoutMs [] b = (None, b)"
| "waitForToken_loop startTime timeoutMs [t] b =
     (if real_of_int (t - startTime) < timeoutMs then (None, b) else (Some False, b))"
| "waitForToken_loop startTime timeoutMs (t # t' # ts) b =
     (if real_of_int (t - startTime) < timeoutMs
      then (case tryConsume t' b of
              (True, b') \<Rightarrow> (Some True, b')
            | (False, b') \<Rightarrow> waitForToken_loop startTime timeoutMs ts b')
      else (Some False, b))"

fun waitForToken :: "real \<Rightarrow> int list \<Rightarrow> real TokenBucket \<Rightarrow> bool option \<times> real TokenBucket" where
  "waitForToken timeoutMs [] b = (None, b)"
| "waitForToken timeoutMs (startTime # ts) b = waitForToken_loop startTime timeoutMs ts b"

text \<open>
  A call of one of the four public methods, with the clock readings the call observes.
\<close>

datatype bucket_call =
    TryConsume int
  | WaitForToken real "int list"
  | GetTokenCount int
  | GetTimeUntilNextToken int

fun call_times :: "bucket_call \<Rightarrow> int list" where
  "call_times (TryConsume t) = [t]"
| "call_times (WaitForToken timeoutMs ts) = ts"
| "call_times (GetTokenCount t) = [t]"
| "call_times (GetTimeUntilNextToken t) = [t]"

fun bucket_after :: "bucket_call \<Rightarrow> real TokenBucket \<Rightarrow> real TokenBucket" where
  "bucket_after (TryConsume t) b = snd (tryConsume t b)"
| "bucket_after (WaitForToken timeoutMs ts) b = snd (waitForToken timeoutMs ts b)"
| "bucket_after (GetTokenCount t) b = snd (getTokenCount t b)"
| "bucket_after (GetTimeUntilNextToken t) b = snd (getTimeUntilNextToken t b)"

fun bucket_run :: "bucket_call list \<Rightarrow> real TokenBucket \<Rightarrow> real TokenBucket" where
  "bucket_run [] b = b"
| "bucket_run (c # cs) b = bucket_run cs (bucket_after c b)"

text \<open>The state a bucket is meant to stay in.\<close>

definition within_bounds :: "real TokenBucket \<Rightarrow> bool" where
  "within_bounds b = (0 \<le> tokens b \<and> tokens b \<le> maxTokens b)"

text \<open>
  The upper bound needs nothing but \<open>tokens \<le> maxTokens\<close> at the start; the lower bound
  also needs a refill rate that is not negative and a clock that does not run backwards.
  \<open>upper_ok\<close> and \<open>lower_ok\<close> are the two invariants of the induction.
\<close>

definition upper_ok :: "real \<Rightarrow> real TokenBucket \<Rightarrow> bool" where
  "upper_ok cap b = (maxTokens b = cap \<and> tokens b \<le> cap)"

definition lower_ok :: "real TokenBucket \<Rightarrow> bool" where
  "lower_ok b = (0 \<le> tokens b \<and> 0 \<le> maxTokens b \<and> 0 \<le> tokensPerSecond b)"

subsection \<open>The methods over the numbers of the runtime\<close>

text \<open>
  The number operations of the JavaScript runtime (IEEE doubles) are parameters: the
  conversion of an integer, \<^verbatim>\<open>+\<close>, \<^verbatim>\<open>-\<close>, \<^verbatim>\<open>*\<close>, \<^verbatim>\<open>/\<close>, \<^verbatim>\<open>Math.min\<close> and \<^verbatim>\<open>>=\<close>. Nothing is
  assumed of them, so what is proved of the functions below holds of the code with the
  rounding, the infinities and the NaN of doubles. The difference
  \<^verbatim>\<open>now - this.lastRefill\<close> is one of two clock readings, integers below \<open>2 ^ 53\<close>, and is
  exact in doubles; it is taken in the integers and then converted.
\<close>

record 'n arith =
  js_num :: "int \<Rightarrow> 'n"
  js_add :: "'n \<Rightarrow> 'n \<Rightarrow> 'n"
  js_sub :: "'n \<Rightarrow> 'n \<Rightarrow> 'n"
  js_mul :: "'n \<Rightarrow> 'n \<Rightarrow> 'n"
  js_div :: "'n \<Rightarrow> 'n \<Rightarrow> 'n"
  js_min :: "'n \<Rightarrow> 'n \<Rightarrow> 'n"
  js_ge :: "'n \<Rightarrow> 'n \<Rightarrow> bool"

definition refillTokens_js :: "'n arith \<Rightarrow> int \<Rightarrow> 'n TokenBucket \<Rightarrow> 'n TokenBucket" where
  "refillTokens_js ar now b =
     (let elapsed = js_div ar (js_num ar (now - lastRefill b)) (js_num ar 1000);
          newTokens = js_mul ar elapsed (tokensPerSecond b)
      in b\<lparr>tokens := js_min ar (maxTokens b) (js_add ar (tokens b) newTokens),
           lastRefill := now\<rparr>)"

definition tryConsume_js :: "'n arith \<Rightarrow> int \<Rightarrow> 'n TokenBucket \<Rightarrow> bool \<times> 'n TokenBucket" where
  "tryConsume_js ar now b =
     (let b1 = refillTokens_js ar now b
      in if js_ge ar (tokens b1) (js_num ar 1)
         then (True, b1\<lparr>tokens := js_sub ar (tokens b1) (js_num ar 1)\<rparr>)
         else (False, b1))"

text \<open>Exact arithmetic on the reals.\<close>

definition exact :: "real arith" where
  "exact =
     \<lparr>js_num = real_of_int, js_add = (+), js_sub = (-), js_mul = (*), js_div = (/),
      js_min = min, js_ge = (\<lambda>x y. y \<le> x)\<rparr>"

section \<open>Strings\<close>

text \<open>
  A JavaScript string is modelled as the list of its code units. \<open>str_includes s sub\<close> is
  \<^verbatim>\<open>s.includes(sub)\<close>: \<open>sub\<close> occurs in \<open>s\<close> as a contiguous block (case-sensitive).
\<close>

fun str_includes :: "string \<Rightarrow> string \<Rightarrow> bool" where
  "str_includes [] sub = (sub = [])"
| "str_includes (c # cs) sub = (prefix sub (c # cs) \<or> str_includes cs sub)"

section \<open>Rate-limit utilities (src/unnamed/part_005, the rate-limiter module)\<close>

text \<open>
  A number that comes out of \<^verbatim>\<open>parseInt\<close> is an integer or NaN; NaN is \<open>None\<close>.
\<close>

type_synonym jsnum = "int option"

record RateLimitInfo =
  retryAfter :: jsnum
  resetTime :: string
  remainingTokens :: jsnum
  limitTokens :: jsnum
  outputTokensRemaining :: jsnum
  outputTokensLimit :: jsnum
  requestsRemaining :: jsnum
  requestsLimit :: jsnum
  totalTokensRemaining :: jsnum
  totalTokensLimit :: jsnum

text \<open>
  The functions of the JavaScript runtime that the module calls are parameters of the
  model: \<^verbatim>\<open>parseInt\<close>, \<^verbatim>\<open>new Date(s).getTime()\<close> (NaN for a string that is no date),
  \<^verbatim>\<open>toLocaleString()\<close> and the conversion of a number inside a template literal, and
  \<^verbatim>\<open>toLocaleTimeString()\<close> of a date given by its time value.
\<close>

record runtime =
  parseInt :: "string \<Rightarrow> jsnum"
  dateTime :: "string \<Rightarrow> jsnum"
  toLocaleString :: "jsnum \<Rightarrow> string"
  numberToString :: "jsnum \<Rightarrow> string"
  toLocaleTimeString :: "jsnum \<Rightarrow> string"

text \<open>
  A value caught by \<^verbatim>\<open>catch (error)\<close>: either an instance of \<^verbatim>\<open>Error\<close> with its message,
  or any other value. Both may carry response headers; \<open>None\<close> stands for a value with
  no \<^verbatim>\<open>headers\<close> property, which is what \<^verbatim>\<open>new Error(message)\<close> makes.
\<close>

datatype thrown =
    ErrorObject string "(string \<rightharpoonup> string) option"
  | OtherValue "(string \<rightharpoonup> string) option"

fun headers :: "thrown \<Rightarrow> (string \<rightharpoonup> string) option" where
  "headers (ErrorObject m h) = h"
| "headers (OtherValue h) = h"

text \<open>\<^verbatim>\<open>error instanceof Error ? error.message : 'Unknown error'\<close>\<close>

fun errorMessage :: "thrown \<Rightarrow> string" where
  "errorMessage (ErrorObject m h) = m"
| "errorMessage (OtherValue h) = ''Unknown error''"

text \<open>\<^verbatim>\<open>headers.get?.(name) || dflt\<close>: a missing header and an empty one give the default.\<close>

definition header_or :: "(string \<rightharpoonup> string) \<Rightarrow> string \<Rightarrow> string \<Rightarrow> string" where
  "header_or h name dflt =
     (case h name of None \<Rightarrow> dflt | Some v \<Rightarrow> if v = [] then dflt else v)"

definition extractRateLimitInfo :: "runtime \<Rightarrow> thrown \<Rightarrow> RateLimitInfo option" where
  "extractRateLimitInfo rt error =
     (case headers error of
        None \<Rightarrow> None
      | Some h \<Rightarrow>
          (let inputTokensRemaining =
                 parseInt rt (header_or h ''anthropic-ratelimit-input-tokens-remaining'' ''0'');
               inputTokensLimit =
                 parseInt rt (header_or h ''anthropic-ratelimit-input-tokens-limit'' ''30000'');
               outputRemaining =
                 parseInt rt (header_or h ''anthropic-ratelimit-output-tokens-remaining'' ''0'');
               outputLimit =
                 parseInt rt (header_or h ''anthropic-ratelimit-output-tokens-limit'' ''8000'');
               reqRemaining =
                 parseInt rt (header_or h ''anthropic-ratelimit-requests-remaining'' ''0'');
               reqLimit =
                 parseInt rt (header_or h ''anthropic-ratelimit-requests-limit'' ''50'')
           in Some \<lparr>retryAfter = parseInt rt (header_or h ''retry-after'' ''60''),
                    resetTime = header_or h ''anthropic-ratelimit-input-tokens-reset'' '''',
                    remainingTokens = inputTokensRemaining,
                    limitTokens = inputTokensLimit,
                    outputTokensRemaining = outputRemaining,
                    outputTokensLimit = outputLimit,
                    requestsRemaining = reqRemaining,
                    requestsLimit = reqLimit,
                    totalTokensRemaining =
                      parseInt rt (header_or h ''anthropic-ratelimit-tokens-remaining'' ''0''),
                    totalTokensLimit =
                      parseInt rt (header_or h ''anthropic-ratelimit-tokens-limit'' ''38000'')\<rparr>))"

text \<open>
  \<^verbatim>\<open>resetTime.getTime() - now.getTime()\<close>: NaN when the reset time is no date. \<open>now\<close> is the
  clock reading of \<^verbatim>\<open>new Date()\<close>.
\<close>

definition timeUntilReset :: "runtime \<Rightarrow> int \<Rightarrow> RateLimitInfo \<Rightarrow> jsnum" where
  "timeUntilReset rt now d = map_option (\<lambda>t. t - now) (dateTime rt (resetTime d))"

text \<open>A comparison \<^verbatim>\<open>x > c\<close> with NaN on the left is false.\<close>

definition js_greater :: "jsnum \<Rightarrow> int \<Rightarrow> bool" where
  "js_greater x c = (case x of None \<Rightarrow> False | Some v \<Rightarrow> c < v)"

definition shouldRetry :: "runtime \<Rightarrow> int \<Rightarrow> RateLimitInfo option \<Rightarrow> int \<Rightarrow> bool" where
  "shouldRetry rt now rateLimitInfo maxRetries =
     (case rateLimitInfo of
        None \<Rightarrow> False
      | Some d \<Rightarrow>
          if maxRetries \<le> 0 then False
          else if remainingTokens d = Some 0
                  \<and> js_greater (timeUntilReset rt now d) (5 * 60 * 1000) then False
          else True)"

definition getRateLimitMessage :: "runtime \<Rightarrow> int \<Rightarrow> RateLimitInfo option \<Rightarrow> string" where
  "getRateLimitMessage rt now rateLimitInfo =
     (case rateLimitInfo of
        None \<Rightarrow> ''Rate limited. Please wait a moment and try again.''
      | Some d \<Rightarrow>
          if remainingTokens d = Some 0
          then (let resetDate = dateTime rt (resetTime d);
                    minutesUntilReset =
                      map_option (\<lambda>t. \<lceil>real_of_int (t - now) / (1000 * 60)\<rceil>) resetDate
                in ''Rate limit exceeded. You'' @ [CHR 0x27] @ ''ve used all ''
                   @ toLocaleString rt (limitTokens d)
                   @ '' tokens. Please wait '' @ numberToString rt minutesUntilReset
                   @ '' minutes until the limit resets at ''
                   @ toLocaleTimeString rt resetDate @ ''.'')
          else ''Rate limited. '' @ toLocaleString rt (remainingTokens d)
               @ '' tokens remaining. Please wait '' @ numberToString rt (retryAfter d)
               @ '' seconds before retrying.'')"

section \<open>The retry loop of the agent node (src/unnamed/part_005, executeAgentNode)\<close>

text \<open>What an awaited call did: it returned a value or it threw.\<close>

datatype 'a outcome = Returned 'a | Threw thrown

text \<open>
  What the outside world does during one attempt: whether
  \<^verbatim>\<open>providerRateLimiter.waitForToken(provider, 30000)\<close> got a token, what
  \<^verbatim>\<open>executeAgentNodeInternal\<close> did when it was called, and what the clock reads when the
  \<^verbatim>\<open>catch\<close> block formats its message.
\<close>

record 'a attempt =
  hasToken :: bool
  internal :: "'a outcome"
  clock :: int

text \<open>The body of the \<^verbatim>\<open>try\<close> block of one attempt.\<close>

definition attempt_body :: "'a attempt \<Rightarrow> 'a outcome" where
  "attempt_body a =
     (if \<not> hasToken a
      then Threw (ErrorObject ''Rate limit token timeout. Please try again later.'' None)
      else internal a)"

definition isRateLimitMessage :: "string \<Rightarrow> bool" where
  "isRateLimitMessage msg =
     (str_includes msg ''rate limit'' \<or> str_includes msg ''429'')"

text \<open>\<^verbatim>\<open>rateLimitInfo?.retryAfter || 60\<close>: no descriptor, NaN and 0 all give 60.\<close>

definition retryAfter_or_60 :: "RateLimitInfo option \<Rightarrow> int" where
  "retryAfter_or_60 rateLimitInfo =
     (case rateLimitInfo of
        None \<Rightarrow> 60
      | Some d \<Rightarrow> (case retryAfter d of None \<Rightarrow> 60 | Some n \<Rightarrow> if n = 0 then 60 else n))"

definition backoffDelay :: "RateLimitInfo option \<Rightarrow> nat \<Rightarrow> int" where
  "backoffDelay rateLimitInfo attempt =
     min (retryAfter_or_60 rateLimitInfo * 1000) (1000 * 2 ^ attempt)"

text \<open>
  What the loop does, in order: \<open>Attempt i\<close> when iteration \<open>i\<close> enters its \<^verbatim>\<open>try\<close> block,
  \<open>Wait ms\<close> when it suspends on \<^verbatim>\<open>setTimeout(resolve, ms)\<close>.
\<close>

datatype event = Attempt nat | Wait int

text \<open>
  The \<^verbatim>\<open>for\<close> loop from iteration \<open>attempt\<close> on. \<open>lastError\<close> is the variable of that name
  (\<open>None\<close> is \<^verbatim>\<open>undefined\<close>); the statement after the loop throws it. The result is the
  list of events and what the function returns (\<open>Inr\<close>) or throws (\<open>Inl\<close>).
\<close>

function executeAgentNode_loop ::
  "runtime \<Rightarrow> (nat \<Rightarrow> 'a attempt) \<Rightarrow> int \<Rightarrow> nat \<Rightarrow> thrown option
     \<Rightarrow> event list \<times> (thrown option + 'a)" where
  "executeAgentNode_loop rt env maxRetries attempt lastError =
     (if int attempt \<le> maxRetries
      then (case attempt_body (env attempt) of
              Returned r \<Rightarrow> ([Attempt attempt], Inr r)
            | Threw error \<Rightarrow>
                if isRateLimitMessage (errorMessage error)
                then (let rateLimitInfo = extractRateLimitInfo rt error
                      in if int attempt = maxRetries
                         then ([Attempt attempt],
                               Inl (Some (ErrorObject
                                 (getRateLimitMessage rt (clock (env attempt)) rateLimitInfo)
                                 None)))
                         else (let rest = executeAgentNode_loop rt env maxRetries
                                            (attempt + 1) (Some error)
                               in (Attempt attempt # Wait (backoffDelay rateLimitInfo attempt)
                                     # fst rest,
                                   snd rest)))
                else ([Attempt attempt], Inl (Some error)))
      else ([], Inl lastError))"
  by pat_completeness auto
termination
  by (relation "measure (\<lambda>(rt, env, maxRetries, attempt, lastError).
                   nat (maxRetries + 1 - int attempt))") auto

declare executeAgentNode_loop.simps [simp del]

definition executeAgentNode ::
  "runtime \<Rightarrow> (nat \<Rightarrow> 'a attempt) \<Rightarrow> int \<Rightarrow> event list \<times> (thrown option + 'a)" where
  "executeAgentNode rt env maxRetries = executeAgentNode_loop rt env maxRetries 0 None"

section \<open>One dispatch (src/unnamed/part_005, executeAgentNodeInternal)\<close>

record api_keys =
  anthropic :: "string option"
  groq :: "string option"
  openai :: "string option"
  firecrawl :: "string option"

text \<open>A key is configured when the field is there and is not the empty string.\<close>

definition key_set :: "string option \<Rightarrow> bool" where
  "key_set k = (case k of None \<Rightarrow> False | Some s \<Rightarrow> s \<noteq> [])"

text \<open>
  The model string \<^verbatim>\<open>data.model || 'anthropic/claude-sonnet-4-5-20250929'\<close> is cut at its
  first slash into provider and model name; with no slash the provider is \<^verbatim>\<open>openai\<close>.
\<close>

definition parseModel :: "string option \<Rightarrow> string \<times> string" where
  "parseModel model =
     (let modelString =
            (case model of
               None \<Rightarrow> ''anthropic/claude-sonnet-4-5-20250929''
             | Some m \<Rightarrow> if m = [] then ''anthropic/claude-sonnet-4-5-20250929'' else m)
      in if str_includes modelString ''/''
         then (takeWhile (\<lambda>c. c \<noteq> CHR ''/'') modelString,
               drop 1 (dropWhile (\<lambda>c. c \<noteq> CHR ''/'') modelString))
         else (''openai'', modelString))"

text \<open>
  What the outside world does during one dispatch: a throw by the steps that come before
  the key check (variable substitution, migration, tool resolution), the value the
  \<^verbatim>\<open>MOCK_AGENT_RESPONSE\<close> branch returns when it does, a throw while the messages are
  assembled, and what the branch of the selected provider (SDK calls and response
  handling) does.
\<close>

record 'a dispatch_world =
  prepare :: "thrown option"
  mockOutput :: "'a option"
  assemble :: "thrown option"
  providerCall :: "'a outcome"

definition provider_configured :: "string \<Rightarrow> api_keys \<Rightarrow> bool" where
  "provider_configured provider keys =
     ((provider = ''anthropic'' \<and> key_set (anthropic keys))
      \<or> (provider = ''openai'' \<and> key_set (openai keys))
      \<or> (provider = ''groq'' \<and> key_set (groq keys)))"

text \<open>The \<^verbatim>\<open>try\<close> block of \<^verbatim>\<open>executeAgentNodeInternal\<close>.\<close>

definition internal_try :: "'a dispatch_world \<Rightarrow> string option \<Rightarrow> api_keys option \<Rightarrow> 'a outcome" where
  "internal_try w model apiKeys =
     (case prepare w of
        Some e \<Rightarrow> Threw e
      | None \<Rightarrow>
          (case apiKeys of
             None \<Rightarrow> Threw (ErrorObject ''API keys are required for server-side execution'' None)
           | Some keys \<Rightarrow>
               (case mockOutput w of
                  Some out \<Rightarrow> Returned out
                | None \<Rightarrow>
                    (case assemble w of
                       Some e \<Rightarrow> Threw e
                     | None \<Rightarrow>
                         (let provider = fst (parseModel model)
                          in if provider = ''anthropic'' \<and> key_set (anthropic keys)
                             then providerCall w
                             else if provider = ''openai'' \<and> key_set (openai keys)
                             then providerCall w
                             else if provider = ''groq'' \<and> key_set (groq keys)
                             then providerCall w
                             else Threw (ErrorObject
                                    (''No API key available for provider: '' @ provider)
                                    None))))))"

text \<open>The \<^verbatim>\<open>catch\<close> block of \<^verbatim>\<open>executeAgentNodeInternal\<close>: it always throws a new error.\<close>

definition internal_catch :: "runtime \<Rightarrow> int \<Rightarrow> thrown \<Rightarrow> thrown" where
  "internal_catch rt now error =
     (let msg = errorMessage error
      in if str_includes msg ''API key'' \<or> str_includes msg ''api_key''
         then ErrorObject ''Missing API key. Please add your LLM provider key in Settings.'' None
         else if str_includes msg ''rate limit'' \<or> str_includes msg ''429''
         then ErrorObject (getRateLimitMessage rt now (extractRateLimitInfo rt error)) None
         else if str_includes msg ''No API key available''
         then ErrorObject (''No API key configured. Please add an Anthropic, OpenAI, ''
                           @ ''or Groq API key in your .env.local file.'') None
         else ErrorObject (''Agent execution failed: '' @ msg) None)"

definition executeAgentNodeInternal ::
  "runtime \<Rightarrow> int \<Rightarrow> 'a dispatch_world \<Rightarrow> string option \<Rightarrow> api_keys option \<Rightarrow> 'a outcome" where
  "executeAgentNodeInternal rt now w model apiKeys =
     (case internal_try w model apiKeys of
        Returned r \<Rightarrow> Returned r
      | Threw error \<Rightarrow> Threw (internal_catch rt now error))"

section \<open>JavaScript values\<close>

text \<open>
  The values the tool resolver handles are untyped (\<^verbatim>\<open>any\<close>). An object is the list of
  its properties in insertion order.
\<close>

datatype jsval =
    JUndefined
  | JNull
  | JBool bool
  | JNum int
  | JStr string
  | JArr "jsval list"
  | JObj "(string \<times> jsval) list"

type_synonym jsobject = "(string \<times> jsval) list"

text \<open>\<^verbatim>\<open>typeof v === 'string'\<close> and \<^verbatim>\<open>typeof v === 'object'\<close> (true of \<^verbatim>\<open>null\<close> and of arrays too).\<close>

fun is_string :: "jsval \<Rightarrow> bool" where
  "is_string (JStr s) = True"
| "is_string v = False"

fun typeof_object :: "jsval \<Rightarrow> bool" where
  "typeof_object JNull = True"
| "typeof_object (JArr xs) = True"
| "typeof_object (JObj ps) = True"
| "typeof_object v = False"

text \<open>The values that count as true in a condition.\<close>

fun truthy :: "jsval \<Rightarrow> bool" where
  "truthy JUndefined = False"
| "truthy JNull = False"
| "truthy (JBool b) = b"
| "truthy (JNum n) = (n \<noteq> 0)"
| "truthy (JStr s) = (s \<noteq> [])"
| "truthy (JArr xs) = True"
| "truthy (JObj ps) = True"

text \<open>
  Reading a property (\<^verbatim>\<open>undefined\<close> when it is absent), writing one (an existing property
  keeps its place, a new one goes last) and \<^verbatim>\<open>delete\<close>.
\<close>

fun prop_get :: "jsobject \<Rightarrow> string \<Rightarrow> jsval" where
  "prop_get [] k = JUndefined"
| "prop_get ((k', v) # ps) k = (if k' = k then v else prop_get ps k)"

fun prop_set :: "jsobject \<Rightarrow> string \<Rightarrow> jsval \<Rightarrow> jsobject" where
  "prop_set [] k v = [(k, v)]"
| "prop_set ((k', v') # ps) k v = (if k' = k then (k, v) # ps else (k', v') # prop_set ps k v)"

definition prop_delete :: "jsobject \<Rightarrow> string \<Rightarrow> jsobject" where
  "prop_delete ps k = filter (\<lambda>(k', v). k' \<noteq> k) ps"

definition has_prop :: "jsobject \<Rightarrow> string \<Rightarrow> bool" where
  "has_prop ps k = (k \<in> fst ` set ps)"

section \<open>Tool resolver (src/lib/mcp/resolver.ts)\<close>

text \<open>
  The database client \<^verbatim>\<open>db\<close> (src/unnamed/part_003, \<^verbatim>\<open>DatabaseService.query\<close>) takes a
  connection from the pool, hands the statement and its parameters to PostgreSQL, releases
  the connection and returns the answer; an error of the connection or of the statement
  is thrown to the caller. The store below stands for the PostgreSQL server behind it. It
  holds the rows of the table \<^verbatim>\<open>mcpServer\<close>, each an object of its columns, and answers the
  statement \<^verbatim>\<open>SELECT * FROM "mcpServer" WHERE id = ANY($1)\<close> by the rows, in table order,
  whose \<^verbatim>\<open>id\<close> is one of the strings of the batch. \<open>failure\<close> is the error thrown when the
  server cannot be reached or refuses the statement.
\<close>

record store =
  failure :: "thrown option"
  mcpServer :: "jsobject list"

definition query_by_ids :: "store \<Rightarrow> jsval list \<Rightarrow> thrown + jsobject list" where
  "query_by_ids db ids =
     (case failure db of
        Some e \<Rightarrow> Inl e
      | None \<Rightarrow> Inr (filter (\<lambda>row. is_string (prop_get row ''id'')
                                    \<and> prop_get row ''id'' \<in> set ids) (mcpServer db)))"

text \<open>The shape handed to the executors: seven properties read off a row.\<close>

definition to_tool_config :: "jsobject \<Rightarrow> jsval" where
  "to_tool_config server =
     JObj [(''name'', prop_get server ''name''),
           (''url'', prop_get server ''url''),
           (''description'', prop_get server ''description''),
           (''authType'', prop_get server ''authType''),
           (''accessToken'', prop_get server ''accessToken''),
           (''availableTools'',
              if truthy (prop_get server ''tools'') then prop_get server ''tools'' else JArr []),
           (''headers'', prop_get server ''headers'')]"

text \<open>
  \<^verbatim>\<open>resolveMCPServers\<close>. The argument is \<open>None\<close> for \<^verbatim>\<open>null\<close> or \<^verbatim>\<open>undefined\<close>. The result is
  the list of id batches sent to the store, and what the function returns (\<open>Inr\<close>) or
  throws (\<open>Inl\<close>).
\<close>

definition resolveMCPServers ::
  "store \<Rightarrow> jsval list option \<Rightarrow> jsval list list \<times> (thrown + jsval list)" where
  "resolveMCPServers db serverIds =
     (case serverIds of
        None \<Rightarrow> ([], Inr [])
      | Some [] \<Rightarrow> ([], Inr [])
      | Some (first # others) \<Rightarrow>
          if typeof_object first then ([], Inr (first # others))
          else (case query_by_ids db (first # others) of
                  Inr rows \<Rightarrow> ([first # others], Inr (map to_tool_config rows))
                | Inl error \<Rightarrow> ([first # others], Inr [])))"

text \<open>
  \<^verbatim>\<open>migrateMCPData\<close>. The argument is \<open>None\<close> for \<^verbatim>\<open>null\<close> or \<^verbatim>\<open>undefined\<close>
  (\<^verbatim>\<open>if (!data) return data\<close>), and the properties of the configuration otherwise.
\<close>

definition migrate_mcpTools :: "jsobject \<Rightarrow> jsobject" where
  "migrate_mcpTools migrated =
     (case prop_get migrated ''mcpTools'' of
        JArr tools \<Rightarrow>
          if list_ex is_string tools
          then prop_delete (prop_set migrated ''mcpServerIds'' (JArr tools)) ''mcpTools''
          else migrated
      | other \<Rightarrow> migrated)"

definition migrate_tools :: "jsobject \<Rightarrow> jsobject" where
  "migrate_tools migrated =
     (case prop_get migrated ''tools'' of
        JArr tools \<Rightarrow>
          if list_all is_string tools
          then prop_delete (prop_set migrated ''mcpServerIds'' (JArr tools)) ''tools''
          else migrated
      | other \<Rightarrow> migrated)"

definition ensure_array :: "jsobject \<Rightarrow> jsobject" where
  "ensure_array migrated =
     (case prop_get migrated ''mcpServerIds'' of
        JArr ids \<Rightarrow> migrated
      | other \<Rightarrow>
          if truthy other then prop_set migrated ''mcpServerIds'' (JArr [other])
          else migrated)"

definition migrateMCPData :: "jsobject option \<Rightarrow> jsobject option" where
  "migrateMCPData data =
     (case data of
        None \<Rightarrow> None
      | Some props \<Rightarrow> Some (ensure_array (migrate_tools (migrate_mcpTools props))))"

section \<open>Approval records (src/lib/database/approvals.ts)\<close>

datatype approval_status = pending | approved | rejected

text \<open>The status argument of \<^verbatim>\<open>updateApprovalStatus\<close> has the type \<^verbatim>\<open>'approved' | 'rejected'\<close>.\<close>

datatype decision = Approved | Rejected

fun decided :: "decision \<Rightarrow> approval_status" where
  "decided Approved = approved"
| "decided Rejected = rejected"

record Approval =
  id' :: string
  approvalId :: string
  workflowId :: string
  executionId :: "string option"
  nodeId :: "string option"
  message :: string
  status :: approval_status
  userId :: "string option"
  createdBy :: "string option"
  respondedBy :: "string option"
  createdAt :: string
  respondedAt :: "string option"

text \<open>
  The functions of the module send their statements through the same database client
  (src/unnamed/part_003), which forwards them to PostgreSQL. The table \<^verbatim>\<open>approvals\<close> is the
  list of its rows in insertion order, and each function below does to it what the SQL
  statement in the source says: \<^verbatim>\<open>INSERT\<close> adds one row, whose \<^verbatim>\<open>id\<close> the server chooses
  (\<open>newId\<close>) and whose columns outside the statement are empty; \<^verbatim>\<open>UPDATE ... WHERE\<close>
  rewrites every row that matches; \<^verbatim>\<open>rows[0]\<close> is the first row of the answer. \<open>now\<close> is
  \<^verbatim>\<open>new Date().toISOString()\<close>.
\<close>

definition createApproval ::
  "string \<Rightarrow> string \<Rightarrow> Approval \<Rightarrow> Approval list \<Rightarrow> Approval \<times> Approval list" where
  "createApproval newId now approval tbl =
     (let row = approval\<lparr>id' := newId, createdAt := now,
                          respondedBy := None, respondedAt := None\<rparr>
      in (row, tbl @ [row]))"

definition getApprovalById :: "string \<Rightarrow> Approval list \<Rightarrow> Approval option" where
  "getApprovalById aid tbl = find (\<lambda>row. approvalId row = aid) tbl"

definition updateApprovalStatus ::
  "string \<Rightarrow> string \<Rightarrow> decision \<Rightarrow> string option \<Rightarrow> Approval list
     \<Rightarrow> Approval option \<times> Approval list" where
  "updateApprovalStatus now aid d responder tbl =
     (let tbl' = map (\<lambda>row. if approvalId row = aid
                              then row\<lparr>status := decided d, respondedBy := responder,
                                       respondedAt := Some now\<rparr>
                              else row) tbl
      in (find (\<lambda>row. approvalId row = aid) tbl', tbl'))"

definition getPendingApprovals :: "string \<Rightarrow> Approval list \<Rightarrow> Approval list" where
  "getPendingApprovals wid tbl =
     sort_key createdAt (filter (\<lambda>row. workflowId row = wid \<and> status row = pending) tbl)"

definition getApprovalsByExecution :: "string \<Rightarrow> Approval list \<Rightarrow> Approval list" where
  "getApprovalsByExecution eid tbl =
     sort_key createdAt (filter (\<lambda>row. executionId row = Some eid) tbl)"

fun status_text :: "approval_status \<Rightarrow> string" where
  "status_text pending = ''pending''"
| "status_text approved = ''approved''"
| "status_text rejected = ''rejected''"

definition watchApprovalStatus :: "string \<Rightarrow> Approval list \<Rightarrow> string \<times> Approval option" where
  "watchApprovalStatus aid tbl =
     (case getApprovalById aid tbl of
        None \<Rightarrow> (''not_found'', None)
      | Some approval \<Rightarrow> (status_text (status approval), Some approval))"

text \<open>
  A call of one of the six exported functions, with what it reads from outside (the new
  id, the time). \<open>QueryFailed\<close> is any call whose query throws.
\<close>

datatype approval_call =
    CreateApproval string string Approval
  | GetApprovalById string
  | UpdateApprovalStatus string string decision "string option"
  | GetPendingApprovals string
  | GetApprovalsByExecution string
  | WatchApprovalStatus string
  | QueryFailed

fun table_after :: "approval_call \<Rightarrow> Approval list \<Rightarrow> Approval list" where
  "table_after (CreateApproval newId now approval) tbl =
     snd (createApproval newId now approval tbl)"
| "table_after (UpdateApprovalStatus now aid d responder) tbl =
     snd (updateApprovalStatus now aid d responder tbl)"
| "table_after (GetApprovalById aid) tbl = tbl"
| "table_after (GetPendingApprovals wid) tbl = tbl"
| "table_after (GetApprovalsByExecution eid) tbl = tbl"
| "table_after (WatchApprovalStatus aid) tbl = tbl"
| "table_after QueryFailed tbl = tbl"

fun approvals_run :: "approval_call list \<Rightarrow> Approval list \<Rightarrow> Approval list" where
  "approvals_run [] tbl = tbl"
| "approvals_run (c # cs) tbl = approvals_run cs (table_after c tbl)"

text \<open>Whether a call is a status write for the record with the external id \<open>aid\<close>.\<close>

fun writes_status :: "string \<Rightarrow> approval_call \<Rightarrow> bool" where
  "writes_status aid (UpdateApprovalStatus now aid' d responder) = (aid' = aid)"
| "writes_status aid c = False"

section \<open>Prompt optimizer (src/lib/workflow/token-optimizer.ts)\<close>

text \<open>
  Strings are lists of code units (here the code units below 256). The limit
  \<^verbatim>\<open>maxTokens\<close> (\<open>max_tokens\<close> below) is a natural number. The arithmetic of
  \<^verbatim>\<open>targetWords\<close> is done in exact reals, where JavaScript rounds to doubles; the two can
  differ by one word when the exact product is a whole number (22 one-letter words and
  the limit 30: 15 words here, 14 in doubles).
\<close>

text \<open>
  \<^verbatim>\<open>s.split(sep)\<close> for a separator of one character: the pieces between the occurrences
  of the separator, one more than there are occurrences. \<open>cur\<close> is the piece being read,
  reversed.
\<close>

fun split_char_acc :: "char \<Rightarrow> string \<Rightarrow> string \<Rightarrow> string list" where
  "split_char_acc sep cur [] = [rev cur]"
| "split_char_acc sep cur (c # cs) =
     (if c = sep then rev cur # split_char_acc sep [] cs
      else split_char_acc sep (c # cur) cs)"

definition split_char :: "char \<Rightarrow> string \<Rightarrow> string list" where
  "split_char sep s = split_char_acc sep [] s"

text \<open>
  \<^verbatim>\<open>s.split(/[.!?]+/)\<close>: the pieces between the maximal runs of sentence marks. A run at
  the start or at the end leaves an empty piece there. \<open>in_run\<close> tells that the character
  before was a mark.
\<close>

definition sentence_mark :: "char \<Rightarrow> bool" where
  "sentence_mark c = (c = CHR ''.'' \<or> c = CHR ''!'' \<or> c = CHR ''?'')"

fun split_sentences_acc :: "string \<Rightarrow> bool \<Rightarrow> string \<Rightarrow> string list" where
  "split_sentences_acc cur in_run [] = [rev cur]"
| "split_sentences_acc cur in_run (c # cs) =
     (if sentence_mark c
      then (if in_run then split_sentences_acc cur True cs
            else rev cur # split_sentences_acc [] True cs)
      else split_sentences_acc (c # cur) False cs)"

definition split_sentences :: "string \<Rightarrow> string list" where
  "split_sentences s = split_sentences_acc [] False s"

text \<open>
  \<^verbatim>\<open>parts.join(sep)\<close>, and \<^verbatim>\<open>s.trim()\<close>, which removes white space and line ends at both
  ends.
\<close>

fun join :: "string \<Rightarrow> string list \<Rightarrow> string" where
  "join sep [] = []"
| "join sep [p] = p"
| "join sep (p # q # ps) = p @ sep @ join sep (q # ps)"

definition white_space :: "char \<Rightarrow> bool" where
  "white_space c = (c \<in> {CHR 0x09, CHR 0x0A, CHR 0x0B, CHR 0x0C, CHR 0x0D, CHR 0x20, CHR 0xA0})"

definition trim :: "string \<Rightarrow> string" where
  "trim s = rev (dropWhile white_space (rev (dropWhile white_space s)))"

definition estimateTokenCount :: "string \<Rightarrow> nat" where
  "estimateTokenCount text = nat \<lceil>real (length text) / 4\<rceil>"

definition isPromptTooLong :: "string \<Rightarrow> real \<Rightarrow> bool" where
  "isPromptTooLong prompt contextWindow =
     (contextWindow * 0.8 < real (estimateTokenCount prompt))"

text \<open>The test that keeps a trimmed line in \<^verbatim>\<open>optimizeLargeContent\<close>.\<close>

definition essential_line :: "string \<Rightarrow> bool" where
  "essential_line trimmed =
     ((20 < length trimmed \<and> length trimmed < 100 \<and>
         (str_includes trimmed ''Mouse'' \<or> str_includes trimmed ''Wireless''
            \<or> str_includes trimmed ''Bluetooth''))
      \<or> (str_includes trimmed ''$'' \<and> length trimmed < 50)
      \<or> ((str_includes trimmed ''stars'' \<or> str_includes trimmed ''rating'')
            \<and> length trimmed < 50)
      \<or> ((str_includes trimmed ''DPI'' \<or> str_includes trimmed ''battery''
            \<or> str_includes trimmed ''rechargeable'') \<and> length trimmed < 100)
      \<or> ((str_includes trimmed ''bought'' \<or> str_includes trimmed ''customers'')
            \<and> length trimmed < 50))"

definition truncation_marker :: string where
  "truncation_marker =
     [CHR 0x0A, CHR 0x0A] @ ''... (content truncated) ...'' @ [CHR 0x0A, CHR 0x0A]"

definition optimizeLargeContent :: "string \<Rightarrow> nat \<Rightarrow> string" where
  "optimizeLargeContent content max_tokens =
     (let maxChars = max_tokens * 4;
          lines = split_char (CHR 0x0A) content;
          essentialLines = filter essential_line (map trim lines);
          optimized = join [CHR 0x0A] essentialLines
      in if essentialLines \<noteq> [] \<and> length optimized \<le> maxChars then optimized
         else (let firstPart = take (maxChars div 2) content;
                   lastPart = drop (length content - maxChars div 2) content
               in firstPart @ truncation_marker @ lastPart))"

text \<open>
  \<^verbatim>\<open>[sentences[0], ...sentences.slice(-3)]\<close>: with no sentence at all the first element is
  \<^verbatim>\<open>undefined\<close>, which \<^verbatim>\<open>join\<close> writes as the empty string.
\<close>

definition importantSentences :: "string list \<Rightarrow> string list" where
  "importantSentences sentences =
     (case sentences of [] \<Rightarrow> [[]] | s # ss \<Rightarrow> s # drop (length sentences - 3) sentences)"

definition optimizePrompt :: "string \<Rightarrow> nat \<Rightarrow> string" where
  "optimizePrompt prompt max_tokens =
     (if length prompt \<le> max_tokens then prompt
      else if 20000 < length prompt then optimizeLargeContent prompt max_tokens
      else (let sentences = filter (\<lambda>s. 0 < length (trim s)) (split_sentences prompt);
                optimized = join ''. '' (importantSentences sentences)
            in if max_tokens < length optimized
               then (let words = split_char CHR '' '' optimized;
                         targetWords =
                           nat \<lfloor>(real max_tokens / real (length optimized)) * real (length words)\<rfloor>
                     in join '' '' (take targetWords words) @ ''...'')
               else optimized))"

section \<open>The retry loop with its dispatcher (src/unnamed/part_005, executeAgentNode as called)\<close>

text \<open>
  In the source the loop does not await an arbitrary call: it awaits
  \<^verbatim>\<open>executeAgentNodeInternal(node, state, apiKeys)\<close>. What the outside world does during
  one attempt is then whether the rate limiter grants a token, what happens inside the
  dispatch, and the clock readings of the two \<^verbatim>\<open>catch\<close> blocks.
\<close>

record 'a attempt_world =
  tokenGranted :: bool
  dispatch :: "'a dispatch_world"
  innerClock :: int
  outerClock :: int

definition dispatched ::
  "runtime \<Rightarrow> string option \<Rightarrow> api_keys option \<Rightarrow> (nat \<Rightarrow> 'a attempt_world)
     \<Rightarrow> nat \<Rightarrow> 'a attempt" where
  "dispatched rt model apiKeys worlds i =
     \<lparr>hasToken = tokenGranted (worlds i),
      internal = executeAgentNodeInternal rt (innerClock (worlds i)) (dispatch (worlds i))
                   model apiKeys,
      clock = outerClock (worlds i)\<rparr>"

text \<open>
  \<^verbatim>\<open>executeAgentNode(node, state, apiKeys, maxRetries)\<close> for a node with the given model
  string.
\<close>

definition executeAgentNode_dispatching ::
  "runtime \<Rightarrow> string option \<Rightarrow> api_keys option \<Rightarrow> (nat \<Rightarrow> 'a attempt_world) \<Rightarrow> int
     \<Rightarrow> event list \<times> (thrown option + 'a)" where
  "executeAgentNode_dispatching rt model apiKeys worlds maxRetries =
     executeAgentNode rt (dispatched rt model apiKeys worlds) maxRetries"

section \<open>Sample inputs\<close>

text \<open>
  A runtime for the concrete runs below. On the strings and numbers that occur in them it
  answers as a JavaScript runtime with the locale \<^verbatim>\<open>en-US\<close> does: \<^verbatim>\<open>parseInt\<close> of a decimal
  string, \<^verbatim>\<open>new Date('')\<close> an invalid date, \<^verbatim>\<open>(30000).toLocaleString()\<close> the text
  \<^verbatim>\<open>30,000\<close>, NaN written \<^verbatim>\<open>NaN\<close>. Any other number is written \<^verbatim>\<open>?\<close>.
\<close>

definition sample_runtime :: runtime where
  "sample_runtime =
     \<lparr>parseInt = map_of [(''0'', 0), (''1'', 1), (''50'', 50), (''60'', 60), (''429'', 429),
                          (''8000'', 8000), (''30000'', 30000), (''38000'', 38000)],
      dateTime = (\<lambda>s. None),
      toLocaleString =
        (\<lambda>n. case n of
                None \<Rightarrow> ''NaN''
              | Some k \<Rightarrow>
                  (case map_of [(0, ''0''), (429, ''429''), (30000, ''30,000'')] k of
                     Some s \<Rightarrow> s
                   | None \<Rightarrow> ''?'')),
      numberToString =
        (\<lambda>n. case n of
                None \<Rightarrow> ''NaN''
              | Some k \<Rightarrow>
                  (case map_of [(0, ''0''), (1, ''1''), (60, ''60'')] k of
                     Some s \<Rightarrow> s
                   | None \<Rightarrow> ''?'')),
      toLocaleTimeString = (\<lambda>n. ''Invalid Date'')\<rparr>"

text \<open>
  A loop whose awaited call throws the provider's error as it is, headers and all, twice
  (with \<^verbatim>\<open>retry-after: 1\<close>), and then answers.
\<close>

definition throttled_twice :: "nat \<Rightarrow> string attempt" where
  "throttled_twice i =
     (if i < 2
      then \<lparr>hasToken = True,
            internal = Threw (ErrorObject ''429 Too Many Requests''
                                (Some [''retry-after'' \<mapsto> ''1''])),
            clock = 0\<rparr>
      else \<lparr>hasToken = True, internal = Returned ''done'', clock = 0\<rparr>)"

text \<open>
  Every attempt dispatches \<^verbatim>\<open>groq/llama-70b\<close> with only an Anthropic key configured.
\<close>

definition no_groq_key :: "nat \<Rightarrow> string attempt" where
  "no_groq_key i =
     \<lparr>hasToken = True,
      internal = executeAgentNodeInternal sample_runtime 0
                   \<lparr>prepare = None, mockOutput = None, assemble = None,
                     providerCall = Returned ''unused''\<rparr>
                   (Some ''groq/llama-70b'')
                   (Some \<lparr>anthropic = Some ''sk-ant'', groq = None, openai = None,
                          firecrawl = None\<rparr>),
      clock = 0\<rparr>"

text \<open>A store that knows the tool server \<^verbatim>\<open>a\<close> and no other.\<close>

definition store_a :: store where
  "store_a =
     \<lparr>failure = None,
      mcpServer = [[(''id'', JStr ''a''), (''name'', JStr ''search''),
                    (''url'', JStr ''https://mcp.example/a'')]]\<rparr>"

text \<open>An approval record that waits for its decision.\<close>

definition sample_approval :: Approval where
  "sample_approval =
     \<lparr>id' = ''1'', approvalId = ''apr-1'', workflowId = ''wf-1'', executionId = None,
      nodeId = None, message = ''Deploy?'', status = pending, userId = None,
      createdBy = None, respondedBy = None, createdAt = ''2025-01-01T00:00:00.000Z'',
      respondedAt = None\<rparr>"

text \<open>
  A node with the model \<^verbatim>\<open>groq/llama-70b\<close> and a Groq key. The provider call throws
  \<^verbatim>\<open>429 Too Many Requests\<close>, with the response headers \<open>h\<close>, in the first \<open>n\<close> dispatches,
  and answers \<^verbatim>\<open>done\<close> from then on; the rate limiter always grants a token.
\<close>

definition groq_only :: api_keys where
  "groq_only = \<lparr>anthropic = None, groq = Some ''gsk-1'', openai = None, firecrawl = None\<rparr>"

definition throttled_provider ::
  "(string \<rightharpoonup> string) option \<Rightarrow> nat \<Rightarrow> nat \<Rightarrow> string attempt_world" where
  "throttled_provider h n i =
     \<lparr>tokenGranted = True,
      dispatch = \<lparr>prepare = None, mockOutput = None, assemble = None,
                  providerCall = (if i < n then Threw (ErrorObject ''429 Too Many Requests'' h)
                                  else Returned ''done'')\<rparr>,
      innerClock = 0,
      outerClock = 0\<rparr>"

section \<open>Facts about the retry loop\<close>

lemma loop_success:
  assumes "int a \<le> m" "attempt_body (env a) = Returned r"
  shows "executeAgentNode_loop rt env m a l = ([Attempt a], Inr r)"
  using assms by (subst executeAgentNode_loop.simps) simp

lemma loop_retry:
  assumes "int a < m" "attempt_body (env a) = Threw e" "isRateLimitMessage (errorMessage e)"
  shows "executeAgentNode_loop rt env m a l =
           (Attempt a # Wait (backoffDelay (extractRateLimitInfo rt e) a)
              # fst (executeAgentNode_loop rt env m (Suc a) (Some e)),
            snd (executeAgentNode_loop rt env m (Suc a) (Some e)))"
  using assms by (subst executeAgentNode_loop.simps) (simp add: Let_def)

lemma loop_exhausted:
  assumes "int a = m" "attempt_body (env a) = Threw e" "isRateLimitMessage (errorMessage e)"
  shows "executeAgentNode_loop rt env m a l =
           ([Attempt a],
            Inl (Some (ErrorObject
              (getRateLimitMessage rt (clock (env a)) (extractRateLimitInfo rt e)) None)))"
  using assms by (subst executeAgentNode_loop.simps) (simp add: Let_def)

lemma loop_other:
  assumes "int a \<le> m" "attempt_body (env a) = Threw e"
    "\<not> isRateLimitMessage (errorMessage e)"
  shows "executeAgentNode_loop rt env m a l = ([Attempt a], Inl (Some e))"
  using assms by (subst executeAgentNode_loop.simps) simp

lemma loop_past_budget:
  assumes "\<not> int a \<le> m"
  shows "executeAgentNode_loop rt env m a l = ([], Inl l)"
  using assms by (subst executeAgentNode_loop.simps) simp

text \<open>An iteration that is within the budget begins with its own attempt.\<close>

lemma loop_starts:
  assumes "int a \<le> m"
  shows "\<exists>post. fst (executeAgentNode_loop rt env m a l) = Attempt a # post"
proof (cases "attempt_body (env a)")
  case (Returned r)
  then show ?thesis using assms by (simp add: loop_success)
next
  case (Threw e)
  show ?thesis
  proof (cases "isRateLimitMessage (errorMessage e)")
    case False
    then show ?thesis using assms Threw by (simp add: loop_other)
  next
    case True
    show ?thesis
    proof (cases "int a = m")
      case True
      then show ?thesis
        using Threw \<open>isRateLimitMessage (errorMessage e)\<close> by (simp add: loop_exhausted)
    next
      case False
      then have "int a < m" using assms by simp
      then show ?thesis using Threw True by (simp add: loop_retry)
    qed
  qed
qed

text \<open>
  If attempt \<open>k\<close> is made at all, the run from an earlier iteration \<open>a\<close> is some events of
  earlier attempts followed by the run from iteration \<open>k\<close>.
\<close>

lemma loop_reach:
  assumes "a \<le> k" "Attempt k \<in> set (fst (executeAgentNode_loop rt env m a l))"
  shows "int k \<le> m \<and>
         (\<exists>pre l'. fst (executeAgentNode_loop rt env m a l)
                      = pre @ fst (executeAgentNode_loop rt env m k l')
                  \<and> snd (executeAgentNode_loop rt env m a l)
                      = snd (executeAgentNode_loop rt env m k l')
                  \<and> (\<forall>j. Attempt j \<in> set pre \<longrightarrow> j < k))"
  using assms
proof (induction "k - a" arbitrary: a l)
  case 0
  then have ak: "a = k" by simp
  have "int k \<le> m"
  proof (rule ccontr)
    assume "\<not> int k \<le> m"
    then show False using "0.prems"(2) ak by (simp add: loop_past_budget)
  qed
  moreover have "fst (executeAgentNode_loop rt env m a l)
                   = [] @ fst (executeAgentNode_loop rt env m k l)"
    using ak by simp
  ultimately show ?case using ak by fastforce
next
  case (Suc n)
  then have lt: "a < k" by simp
  have am: "int a \<le> m"
  proof (rule ccontr)
    assume "\<not> int a \<le> m"
    then show False using Suc.prems(2) by (simp add: loop_past_budget)
  qed
  show ?case
  proof (cases "attempt_body (env a)")
    case (Returned r)
    then show ?thesis using Suc.prems(2) am lt by (simp add: loop_success)
  next
    case (Threw e)
    show ?thesis
    proof (cases "isRateLimitMessage (errorMessage e)")
      case False
      then show ?thesis using Suc.prems(2) am lt Threw by (simp add: loop_other)
    next
      case True
      show ?thesis
      proof (cases "int a = m")
        case True
        then show ?thesis
          using Suc.prems(2) lt Threw \<open>isRateLimitMessage (errorMessage e)\<close>
          by (simp add: loop_exhausted)
      next
        case False
        then have "int a < m" using am by simp
        note unf = loop_retry [where a = a and env = env and m = m and e = e and rt = rt and l = l,
            OF this Threw True]
        have mem: "Attempt k \<in> set (fst (executeAgentNode_loop rt env m (Suc a) (Some e)))"
          using Suc.prems(2) lt unf by simp
        have "n = k - Suc a" using Suc.hyps(2) by simp
        from Suc.hyps(1) [OF this _ mem] lt
        obtain pre l' where
          km: "int k \<le> m" and
          f: "fst (executeAgentNode_loop rt env m (Suc a) (Some e))
                = pre @ fst (executeAgentNode_loop rt env m k l')" and
          s: "snd (executeAgentNode_loop rt env m (Suc a) (Some e))
                = snd (executeAgentNode_loop rt env m k l')" and
          p: "\<forall>j. Attempt j \<in> set pre \<longrightarrow> j < k"
          by auto
        have "fst (executeAgentNode_loop rt env m a l)
                = (Attempt a # Wait (backoffDelay (extractRateLimitInfo rt e) a) # pre)
                  @ fst (executeAgentNode_loop rt env m k l')"
          using unf f by simp
        moreover have "snd (executeAgentNode_loop rt env m a l)
                = snd (executeAgentNode_loop rt env m k l')"
          using unf s by simp
        moreover have "\<forall>j. Attempt j \<in> set (Attempt a
                  # Wait (backoffDelay (extractRateLimitInfo rt e) a) # pre) \<longrightarrow> j < k"
          using p lt by simp
        ultimately show ?thesis using km by blast
      qed
    qed
  qed
qed

lemma reach_from_start:
  assumes "Attempt k \<in> set (fst (executeAgentNode rt env m))"
  shows "int k \<le> m \<and>
         (\<exists>pre l'. fst (executeAgentNode rt env m)
                      = pre @ fst (executeAgentNode_loop rt env m k l')
                  \<and> snd (executeAgentNode rt env m)
                      = snd (executeAgentNode_loop rt env m k l')
                  \<and> (\<forall>j. Attempt j \<in> set pre \<longrightarrow> j < k))"
  using loop_reach [of 0 k rt env m None] assms by (simp add: executeAgentNode_def)

lemma first_attempt_made:
  assumes "0 \<le> m"
  shows "Attempt 0 \<in> set (fst (executeAgentNode rt env m))"
proof -
  obtain post where "fst (executeAgentNode_loop rt env m 0 None) = Attempt 0 # post"
    using loop_starts [of 0 m rt env None] assms by auto
  then show ?thesis by (simp add: executeAgentNode_def)
qed

section \<open>What the loop does with an error that reaches it\<close>

text \<open>
  The loop by itself, whatever the awaited call is. With the budget 3, the first attempt
  is always made and none beyond index 3 is. For every attempt \<open>i\<close> that is made: when the
  error that reaches the loop is classified as rate-limiting and \<open>i < 3\<close>, the loop
  suspends for \<open>min (retryAfterSeconds * 1000) (1000 * 2 ^ i)\<close> milliseconds, where
  \<open>retryAfterSeconds\<close> is the \<^verbatim>\<open>retryAfter\<close> of the descriptor extracted from that error or
  60 when there is none (no descriptor, or a \<^verbatim>\<open>retryAfter\<close> that is NaN or 0), and then
  makes attempt \<open>i + 1\<close>; when \<open>i = 3\<close>, it throws a new error whose message is formatted
  from that descriptor; when the call returns, the loop returns its result.
\<close>

lemma loop_alone_retries:
  "Attempt 0 \<in> set (fst (executeAgentNode rt env 3)) \<and>
   (Attempt i \<in> set (fst (executeAgentNode rt env 3)) \<longrightarrow>
      i \<le> 3 \<and>
      (\<forall>e. attempt_body (env i) = Threw e \<and> isRateLimitMessage (errorMessage e) \<and> i < 3 \<longrightarrow>
         (\<exists>pre post. fst (executeAgentNode rt env 3) =
            pre @ [Attempt i,
                   Wait (min (retryAfter_or_60 (extractRateLimitInfo rt e) * 1000)
                             (1000 * 2 ^ i)),
                   Attempt (Suc i)] @ post)) \<and>
      (\<forall>e. attempt_body (env i) = Threw e \<and> isRateLimitMessage (errorMessage e) \<and> i = 3 \<longrightarrow>
         snd (executeAgentNode rt env 3) =
           Inl (Some (ErrorObject
             (getRateLimitMessage rt (clock (env i)) (extractRateLimitInfo rt e)) None)) \<and>
         (\<exists>pre. fst (executeAgentNode rt env 3) = pre @ [Attempt i])) \<and>
      (\<forall>r. attempt_body (env i) = Returned r \<longrightarrow>
         snd (executeAgentNode rt env 3) = Inr r \<and>
         (\<exists>pre. fst (executeAgentNode rt env 3) = pre @ [Attempt i])))"
proof (intro conjI impI allI)
  show "Attempt 0 \<in> set (fst (executeAgentNode rt env 3))"
    by (rule first_attempt_made) simp
next
  assume "Attempt i \<in> set (fst (executeAgentNode rt env 3))"
  then show "i \<le> 3" using reach_from_start [of i rt env 3] by simp
next
  fix e
  assume made: "Attempt i \<in> set (fst (executeAgentNode rt env 3))"
    and fails: "attempt_body (env i) = Threw e \<and> isRateLimitMessage (errorMessage e) \<and> i < 3"
  from reach_from_start [OF made] obtain pre l' where
    f: "fst (executeAgentNode rt env 3) = pre @ fst (executeAgentNode_loop rt env 3 i l')"
    by blast
  have lt: "int i < 3" using fails by simp
  have unf: "fst (executeAgentNode_loop rt env 3 i l') =
               Attempt i # Wait (backoffDelay (extractRateLimitInfo rt e) i)
                 # fst (executeAgentNode_loop rt env 3 (Suc i) (Some e))"
  proof -
    have "attempt_body (env i) = Threw e" "isRateLimitMessage (errorMessage e)"
      using fails by auto
    with lt show ?thesis
      by (simp add: loop_retry [where a = i and env = env and m = 3 and e = e])
  qed
  obtain post where
    nxt: "fst (executeAgentNode_loop rt env 3 (Suc i) (Some e)) = Attempt (Suc i) # post"
    using loop_starts [of "Suc i" 3 rt env "Some e"] lt by auto
  have "fst (executeAgentNode rt env 3) =
          pre @ [Attempt i,
                 Wait (min (retryAfter_or_60 (extractRateLimitInfo rt e) * 1000) (1000 * 2 ^ i)),
                 Attempt (Suc i)] @ post"
    using f unf nxt by (simp add: backoffDelay_def)
  then show "\<exists>pre post. fst (executeAgentNode rt env 3) =
          pre @ [Attempt i,
                 Wait (min (retryAfter_or_60 (extractRateLimitInfo rt e) * 1000) (1000 * 2 ^ i)),
                 Attempt (Suc i)] @ post"
    by blast
next
  fix e
  assume made: "Attempt i \<in> set (fst (executeAgentNode rt env 3))"
    and fails: "attempt_body (env i) = Threw e \<and> isRateLimitMessage (errorMessage e) \<and> i = 3"
  from reach_from_start [OF made] obtain pre l' where
    f: "fst (executeAgentNode rt env 3) = pre @ fst (executeAgentNode_loop rt env 3 i l')" and
    s: "snd (executeAgentNode rt env 3) = snd (executeAgentNode_loop rt env 3 i l')"
    by blast
  have unf: "executeAgentNode_loop rt env 3 i l' =
               ([Attempt i], Inl (Some (ErrorObject
                  (getRateLimitMessage rt (clock (env i)) (extractRateLimitInfo rt e)) None)))"
  proof -
    have "int i = 3" "attempt_body (env i) = Threw e" "isRateLimitMessage (errorMessage e)"
      using fails by auto
    then show ?thesis
      by (rule loop_exhausted [where a = i and env = env and m = 3 and e = e])
  qed
  show "snd (executeAgentNode rt env 3) =
          Inl (Some (ErrorObject
            (getRateLimitMessage rt (clock (env i)) (extractRateLimitInfo rt e)) None))"
    using s unf by simp
  show "\<exists>pre. fst (executeAgentNode rt env 3) = pre @ [Attempt i]"
    using f unf by simp
next
  fix r
  assume made: "Attempt i \<in> set (fst (executeAgentNode rt env 3))"
    and ok: "attempt_body (env i) = Returned r"
  from reach_from_start [OF made] obtain pre l' where
    le: "int i \<le> 3" and
    f: "fst (executeAgentNode rt env 3) = pre @ fst (executeAgentNode_loop rt env 3 i l')" and
    s: "snd (executeAgentNode rt env 3) = snd (executeAgentNode_loop rt env 3 i l')"
    by blast
  have unf: "executeAgentNode_loop rt env 3 i l' = ([Attempt i], Inr r)"
    using loop_success [where a = i and env = env and m = 3 and r = r and rt = rt and l = l']
      le ok by simp
  show "snd (executeAgentNode rt env 3) = Inr r" using s unf by simp
  show "\<exists>pre. fst (executeAgentNode rt env 3) = pre @ [Attempt i]" using f unf by simp
qed

lemma throttled_twice_body:
  "i < 2 \<Longrightarrow> attempt_body (throttled_twice i) =
     Threw (ErrorObject ''429 Too Many Requests'' (Some [''retry-after'' \<mapsto> ''1'']))"
  "\<not> i < 2 \<Longrightarrow> attempt_body (throttled_twice i) = Returned ''done''"
  by (simp_all add: throttled_twice_def attempt_body_def)

lemma throttled_message: "isRateLimitMessage ''429 Too Many Requests''"
  by (simp add: isRateLimitMessage_def)

lemma throttled_retryAfter:
  "retryAfter_or_60 (extractRateLimitInfo sample_runtime
       (ErrorObject ''429 Too Many Requests'' (Some [''retry-after'' \<mapsto> ''1'']))) = 1"
  by (simp add: retryAfter_or_60_def extractRateLimitInfo_def header_or_def sample_runtime_def
      Let_def)

lemma throttled_twice_run:
  "executeAgentNode sample_runtime throttled_twice 3 =
     ([Attempt 0, Wait 1000, Attempt 1, Wait 1000, Attempt 2], Inr ''done'')"
proof -
  let ?e = "ErrorObject ''429 Too Many Requests'' (Some [''retry-after'' \<mapsto> ''1''])"
  have l2: "executeAgentNode_loop sample_runtime throttled_twice 3 2 (Some ?e) =
              ([Attempt 2], Inr ''done'')"
    by (rule loop_success) (simp_all add: throttled_twice_body)
  have l1: "executeAgentNode_loop sample_runtime throttled_twice 3 1 (Some ?e) =
              ([Attempt 1, Wait 1000, Attempt 2], Inr ''done'')"
    using loop_retry [where a = 1 and env = throttled_twice and m = 3 and e = ?e
        and rt = sample_runtime and l = "Some ?e"] l2
    by (simp add: throttled_twice_body throttled_message backoffDelay_def throttled_retryAfter
        numeral_2_eq_2)
  have l0: "executeAgentNode_loop sample_runtime throttled_twice 3 0 None =
              ([Attempt 0, Wait 1000, Attempt 1, Wait 1000, Attempt 2], Inr ''done'')"
    using loop_retry [where a = 0 and env = throttled_twice and m = 3 and e = ?e
        and rt = sample_runtime and l = None] l1
    by (simp add: throttled_twice_body throttled_message backoffDelay_def throttled_retryAfter
        numeral_2_eq_2)
  then show ?thesis by (simp add: executeAgentNode_def)
qed

lemma loop_alone_sample:
  "Attempt 1 \<in> set (fst (executeAgentNode sample_runtime throttled_twice 3)) \<and>
   attempt_body (throttled_twice 1) =
     Threw (ErrorObject ''429 Too Many Requests'' (Some [''retry-after'' \<mapsto> ''1''])) \<and>
   isRateLimitMessage ''429 Too Many Requests'' \<and>
   (\<exists>pre post. fst (executeAgentNode sample_runtime throttled_twice 3) =
      pre @ [Attempt 1, Wait 1000, Attempt 2] @ post) \<and>
   executeAgentNode sample_runtime throttled_twice 3 =
     ([Attempt 0, Wait 1000, Attempt 1, Wait 1000, Attempt 2], Inr ''done'')"
proof -
  let ?e = "ErrorObject ''429 Too Many Requests'' (Some [''retry-after'' \<mapsto> ''1''])"
  have made: "Attempt 1 \<in> set (fst (executeAgentNode sample_runtime throttled_twice 3))"
    by (simp add: throttled_twice_run)
  have rl: "isRateLimitMessage ''429 Too Many Requests''"
    by (rule throttled_message)
  have "\<exists>pre post. fst (executeAgentNode sample_runtime throttled_twice 3) =
          pre @ [Attempt 1,
                 Wait (min (retryAfter_or_60 (extractRateLimitInfo sample_runtime ?e) * 1000)
                           (1000 * 2 ^ 1)),
                 Attempt (Suc 1)] @ post"
    using loop_alone_retries [of sample_runtime throttled_twice 1] made rl
      throttled_twice_body(1) [of 1]
    by simp
  then have "\<exists>pre post. fst (executeAgentNode sample_runtime throttled_twice 3) =
          pre @ [Attempt 1, Wait 1000, Attempt 2] @ post"
    by (simp add: throttled_retryAfter numeral_2_eq_2)
  then show ?thesis
    using made rl throttled_twice_body(1) [of 1] throttled_twice_run by simp
qed

section \<open>Facts about one dispatch\<close>

lemma str_includes_append: "str_includes s sub \<Longrightarrow> str_includes (s @ t) sub"
proof (induction s)
  case Nil
  then show ?case by (cases t) simp_all
next
  case (Cons c cs)
  then show ?case by (auto simp del: Cons_prefix_Cons intro: prefix_prefix [of sub "c # cs" t, simplified])
qed

lemma missing_key_message_kind:
  "\<not> isRateLimitMessage ''Missing API key. Please add your LLM provider key in Settings.''"
  by (simp add: isRateLimitMessage_def)

lemma no_key_message_has_marker:
  "str_includes (''No API key available for provider: '' @ provider) ''API key''"
  by (rule str_includes_append) simp

lemma internal_try_missing_credentials:
  assumes "prepare w = None" "mockOutput w = None" "assemble w = None"
    "\<not> provider_configured (fst (parseModel model)) keys"
  shows "internal_try w model (Some keys) =
           Threw (ErrorObject
             (''No API key available for provider: '' @ fst (parseModel model)) None)"
  using assms by (auto simp: internal_try_def provider_configured_def Let_def)

lemma internal_missing_credentials:
  assumes "prepare w = None" "mockOutput w = None" "assemble w = None"
    "\<not> provider_configured (fst (parseModel model)) keys"
  shows "executeAgentNodeInternal rt now w model (Some keys) =
           Threw (ErrorObject
             ''Missing API key. Please add your LLM provider key in Settings.'' None)"
  using no_key_message_has_marker [of "fst (parseModel model)"]
  by (simp add: executeAgentNodeInternal_def internal_try_missing_credentials [OF assms]
      internal_catch_def Let_def del: str_includes.simps)

text \<open>
  A throttling error of the provider does not leave \<^verbatim>\<open>executeAgentNodeInternal\<close> as it is:
  the \<^verbatim>\<open>catch\<close> block replaces it by a new error without headers whose message starts with
  a capital letter. When the provider's error carries no headers itself, the new message
  is not one the retry loop classifies as rate-limiting.
\<close>

lemma throttling_rewritten:
  assumes "headers e = None" "isRateLimitMessage (errorMessage e)"
    "\<not> str_includes (errorMessage e) ''API key''" "\<not> str_includes (errorMessage e) ''api_key''"
  shows "internal_catch rt now e =
           ErrorObject ''Rate limited. Please wait a moment and try again.'' None"
    and "\<not> isRateLimitMessage ''Rate limited. Please wait a moment and try again.''"
proof -
  show "internal_catch rt now e =
           ErrorObject ''Rate limited. Please wait a moment and try again.'' None"
    using assms
    by (simp add: internal_catch_def Let_def isRateLimitMessage_def extractRateLimitInfo_def
        getRateLimitMessage_def)
  show "\<not> isRateLimitMessage ''Rate limited. Please wait a moment and try again.''"
    by (simp add: isRateLimitMessage_def)
qed

lemma propagated_at:
  assumes made: "Attempt k \<in> set (fst (executeAgentNode rt env m))"
    and body: "attempt_body (env k) = Threw e"
    and kind: "\<not> isRateLimitMessage (errorMessage e)"
  shows "snd (executeAgentNode rt env m) = Inl (Some e) \<and>
         (\<exists>pre. fst (executeAgentNode rt env m) = pre @ [Attempt k]
                \<and> (\<forall>j. Attempt j \<in> set pre \<longrightarrow> j < k))"
proof -
  from reach_from_start [OF made] obtain pre l' where
    le: "int k \<le> m" and
    f: "fst (executeAgentNode rt env m) = pre @ fst (executeAgentNode_loop rt env m k l')" and
    s: "snd (executeAgentNode rt env m) = snd (executeAgentNode_loop rt env m k l')" and
    p: "\<forall>j. Attempt j \<in> set pre \<longrightarrow> j < k"
    by blast
  have unf: "executeAgentNode_loop rt env m k l' = ([Attempt k], Inl (Some e))"
    using le body kind by (rule loop_other)
  show ?thesis using f s p unf by simp
qed

section \<open>C1: retry with backoff on a rate-limit failure\<close>

text \<open>
  Every error that leaves \<^verbatim>\<open>executeAgentNodeInternal\<close> was made by its \<^verbatim>\<open>catch\<close> block with
  \<^verbatim>\<open>new Error(message)\<close>: it carries no headers. So the retry loop never finds a descriptor in
  the error it catches, its \<^verbatim>\<open>retryAfter\<close> is always the default 60, and the wait before
  attempt \<open>i + 1\<close>, when there is one, is \<open>min 60000 (1000 * 2 ^ i)\<close> whatever the provider
  answered.
\<close>

lemma internal_never_headers:
  assumes "executeAgentNodeInternal rt now w model apiKeys = Threw e"
  shows "headers e = None"
  using assms
  by (auto simp: executeAgentNodeInternal_def internal_catch_def Let_def
      split: outcome.splits if_splits)

lemma dispatched_never_headers:
  assumes "attempt_body (dispatched rt model apiKeys worlds i) = Threw e"
  shows "headers e = None" "extractRateLimitInfo rt' e = None"
    "backoffDelay (extractRateLimitInfo rt' e) i = min 60000 (1000 * 2 ^ i)"
proof -
  show h: "headers e = None"
  proof (cases "tokenGranted (worlds i)")
    case True
    then have "executeAgentNodeInternal rt (innerClock (worlds i)) (dispatch (worlds i))
                 model apiKeys = Threw e"
      using assms by (simp add: attempt_body_def dispatched_def)
    then show ?thesis by (rule internal_never_headers)
  next
    case False
    then show ?thesis using assms by (auto simp: attempt_body_def dispatched_def)
  qed
  then show d: "extractRateLimitInfo rt' e = None"
    by (simp add: extractRateLimitInfo_def)
  show "backoffDelay (extractRateLimitInfo rt' e) i = min 60000 (1000 * 2 ^ i)"
    by (simp add: d backoffDelay_def retryAfter_or_60_def)
qed

text \<open>What one dispatch of the sample node does while the provider throttles.\<close>

lemma groq_dispatch:
  "internal_try (dispatch (throttled_provider h n i)) (Some ''groq/llama-70b'') (Some groq_only)
     = (if i < n then Threw (ErrorObject ''429 Too Many Requests'' h) else Returned ''done'')"
  by (simp add: internal_try_def throttled_provider_def groq_only_def parseModel_def
      key_set_def)

lemma throttled_body:
  assumes "i < n"
  shows "attempt_body (dispatched rt (Some ''groq/llama-70b'') (Some groq_only)
                         (throttled_provider h n) i)
           = Threw (ErrorObject
               (getRateLimitMessage rt 0
                  (extractRateLimitInfo rt (ErrorObject ''429 Too Many Requests'' h))) None)"
proof -
  have "internal_catch rt 0 (ErrorObject ''429 Too Many Requests'' h)
          = ErrorObject
              (getRateLimitMessage rt 0
                 (extractRateLimitInfo rt (ErrorObject ''429 Too Many Requests'' h))) None"
    by (simp add: internal_catch_def)
  then show ?thesis
    using assms
    by (simp add: attempt_body_def dispatched_def executeAgentNodeInternal_def groq_dispatch)
      (simp add: throttled_provider_def)
qed

lemma default_text_kind:
  "\<not> isRateLimitMessage ''Rate limited. Please wait a moment and try again.''"
  by (simp add: isRateLimitMessage_def)

lemma message_no_headers:
  "getRateLimitMessage rt 0 (extractRateLimitInfo rt (ErrorObject ''429 Too Many Requests'' None))
     = ''Rate limited. Please wait a moment and try again.''"
  by (simp add: getRateLimitMessage_def extractRateLimitInfo_def)

lemma message_retry_after:
  "getRateLimitMessage sample_runtime 0
     (extractRateLimitInfo sample_runtime
        (ErrorObject ''429 Too Many Requests'' (Some [''retry-after'' \<mapsto> ''1''])))
     = ''Rate limit exceeded. You'' @ [CHR 0x27] @ ''ve used all 30,000 tokens. ''
       @ ''Please wait NaN minutes until the limit resets at Invalid Date.''"
  by (simp add: getRateLimitMessage_def extractRateLimitInfo_def header_or_def
      sample_runtime_def Let_def)

lemma message_retry_after_kind:
  "\<not> isRateLimitMessage
        (''Rate limit exceeded. You'' @ [CHR 0x27] @ ''ve used all 30,000 tokens. ''
         @ ''Please wait NaN minutes until the limit resets at Invalid Date.'')"
  by (simp add: isRateLimitMessage_def)

lemma message_remaining_429:
  "getRateLimitMessage sample_runtime 0
     (extractRateLimitInfo sample_runtime
        (ErrorObject ''429 Too Many Requests''
           (Some [''retry-after'' \<mapsto> ''1'',
                  ''anthropic-ratelimit-input-tokens-remaining'' \<mapsto> ''429''])))
     = ''Rate limited. 429 tokens remaining. Please wait 1 seconds before retrying.''"
  by (simp add: getRateLimitMessage_def extractRateLimitInfo_def header_or_def
      sample_runtime_def Let_def)

lemma message_remaining_429_kind:
  "isRateLimitMessage
     ''Rate limited. 429 tokens remaining. Please wait 1 seconds before retrying.''"
  by (simp add: isRateLimitMessage_def)

text \<open>
  C1. The claim: with the retry budget 3, a rate-limit failure at attempt \<open>i < 3\<close> is
  followed by a wait of \<open>min (retryAfterSeconds * 1000) (1000 * 2 ^ i)\<close> milliseconds, with
  \<open>retryAfterSeconds\<close> from the descriptor of the failure, and by the next attempt; at the
  last attempt the message formatted from the descriptor is thrown; a success is returned
  at once. The loop is written to do this and does it with an error that reaches it as it
  was thrown (\<open>loop_alone_retries\<close>), but the code as a whole does not, because the dispatcher
  rewrites the error first. Three runs of \<^verbatim>\<open>executeAgentNode\<close> on a node with the model
  \<^verbatim>\<open>groq/llama-70b\<close> and the budget 3 show it.

  The provider throttles the first two dispatches with \<^verbatim>\<open>429 Too Many Requests\<close> and no
  headers, and would answer the third: for every runtime the run is the first attempt
  alone, with no wait and no retry, and throws the default text. The same with the header
  \<^verbatim>\<open>retry-after: 1\<close>: again the first attempt alone; the text thrown is the one formatted
  from the descriptor, which starts with a capital letter and so is not classified as
  rate-limiting by the loop. The provider throttles all four dispatches with
  \<^verbatim>\<open>retry-after: 1\<close> and 429 input tokens remaining: the text happens to contain \<^verbatim>\<open>429\<close>, the
  loop retries, but it waits 1000, 2000 and 4000 milliseconds where the claim gives 1000
  each time, and the text thrown at the end is the default one, not the one formatted
  from the descriptor.
\<close>

theorem throttled_dispatch_not_retried:
  "executeAgentNode_dispatching rt (Some ''groq/llama-70b'') (Some groq_only)
       (throttled_provider None 2) 3
     = ([Attempt 0],
        Inl (Some (ErrorObject ''Rate limited. Please wait a moment and try again.'' None))) \<and>
   executeAgentNode_dispatching sample_runtime (Some ''groq/llama-70b'') (Some groq_only)
       (throttled_provider (Some [''retry-after'' \<mapsto> ''1'']) 2) 3
     = ([Attempt 0],
        Inl (Some (ErrorObject
          (''Rate limit exceeded. You'' @ [CHR 0x27] @ ''ve used all 30,000 tokens. ''
           @ ''Please wait NaN minutes until the limit resets at Invalid Date.'') None))) \<and>
   executeAgentNode_dispatching sample_runtime (Some ''groq/llama-70b'') (Some groq_only)
       (throttled_provider
          (Some [''retry-after'' \<mapsto> ''1'',
                 ''anthropic-ratelimit-input-tokens-remaining'' \<mapsto> ''429'']) 4) 3
     = ([Attempt 0, Wait 1000, Attempt 1, Wait 2000, Attempt 2, Wait 4000, Attempt 3],
        Inl (Some (ErrorObject ''Rate limited. Please wait a moment and try again.'' None)))"
proof (intro conjI)
  let ?model = "Some ''groq/llama-70b''"
  let ?keys = "Some groq_only"
  let ?default = "''Rate limited. Please wait a moment and try again.''"
  show "executeAgentNode_dispatching rt ?model ?keys (throttled_provider None 2) 3
          = ([Attempt 0], Inl (Some (ErrorObject ?default None)))"
  proof -
    let ?env = "dispatched rt ?model ?keys (throttled_provider None 2)"
    have body: "attempt_body (?env 0) = Threw (ErrorObject ?default None)"
      using throttled_body [of 0 2 rt None] by (simp add: message_no_headers)
    have "executeAgentNode_loop rt ?env 3 0 None
            = ([Attempt 0], Inl (Some (ErrorObject ?default None)))"
      using loop_other [where a = 0 and env = ?env and m = 3
          and e = "ErrorObject ?default None" and rt = rt and l = None, OF _ body]
        default_text_kind
      by simp
    then show ?thesis
      by (simp add: executeAgentNode_dispatching_def executeAgentNode_def)
  qed
next
  let ?model = "Some ''groq/llama-70b''"
  let ?keys = "Some groq_only"
  let ?h = "Some [''retry-after'' \<mapsto> ''1'']"
  let ?text = "''Rate limit exceeded. You'' @ [CHR 0x27] @ ''ve used all 30,000 tokens. ''
           @ ''Please wait NaN minutes until the limit resets at Invalid Date.''"
  let ?env = "dispatched sample_runtime ?model ?keys (throttled_provider ?h 2)"
  have body: "attempt_body (?env 0) = Threw (ErrorObject ?text None)"
    using throttled_body [of 0 2 sample_runtime ?h] by (simp add: message_retry_after)
  have kind: "\<not> isRateLimitMessage (errorMessage (ErrorObject ?text None))"
    using message_retry_after_kind by simp
  have "executeAgentNode_loop sample_runtime ?env 3 0 None
          = ([Attempt 0], Inl (Some (ErrorObject ?text None)))"
    using loop_other [where a = 0 and env = ?env and m = 3 and e = "ErrorObject ?text None"
        and rt = sample_runtime and l = None, OF _ body kind]
    by simp
  then show "executeAgentNode_dispatching sample_runtime ?model ?keys
               (throttled_provider ?h 2) 3
          = ([Attempt 0], Inl (Some (ErrorObject ?text None)))"
    by (simp add: executeAgentNode_dispatching_def executeAgentNode_def)
next
  let ?model = "Some ''groq/llama-70b''"
  let ?keys = "Some groq_only"
  let ?h = "Some [''retry-after'' \<mapsto> ''1'',
                  ''anthropic-ratelimit-input-tokens-remaining'' \<mapsto> ''429'']"
  let ?text = "''Rate limited. 429 tokens remaining. Please wait 1 seconds before retrying.''"
  let ?default = "''Rate limited. Please wait a moment and try again.''"
  let ?e = "ErrorObject ?text None"
  let ?env = "dispatched sample_runtime ?model ?keys (throttled_provider ?h 4)"
  have body: "attempt_body (?env i) = Threw ?e" if "i < 4" for i
    using throttled_body [OF that, of sample_runtime ?h]
    by (simp only: message_remaining_429)
  have kind: "isRateLimitMessage (errorMessage ?e)"
    using message_remaining_429_kind by simp
  have delay: "backoffDelay (extractRateLimitInfo sample_runtime ?e) i = min 60000 (1000 * 2 ^ i)"
    for i
    by (simp add: backoffDelay_def retryAfter_or_60_def extractRateLimitInfo_def)
  have final: "getRateLimitMessage sample_runtime (clock (?env 3))
                 (extractRateLimitInfo sample_runtime ?e) = ?default"
    by (simp add: getRateLimitMessage_def extractRateLimitInfo_def)
  have l3: "executeAgentNode_loop sample_runtime ?env 3 3 (Some ?e)
              = ([Attempt 3], Inl (Some (ErrorObject ?default None)))"
    using loop_exhausted [where a = 3 and env = ?env and m = 3 and e = ?e
        and rt = sample_runtime and l = "Some ?e", OF _ body kind] final
    by simp
  have l2: "executeAgentNode_loop sample_runtime ?env 3 2 (Some ?e)
              = ([Attempt 2, Wait 4000, Attempt 3], Inl (Some (ErrorObject ?default None)))"
    using loop_retry [where a = 2 and env = ?env and m = 3 and e = ?e
        and rt = sample_runtime and l = "Some ?e", OF _ body kind] l3
    by (simp add: delay numeral_3_eq_3 numeral_2_eq_2)
  have l1: "executeAgentNode_loop sample_runtime ?env 3 1 (Some ?e)
              = ([Attempt 1, Wait 2000, Attempt 2, Wait 4000, Attempt 3],
                 Inl (Some (ErrorObject ?default None)))"
    using loop_retry [where a = 1 and env = ?env and m = 3 and e = ?e
        and rt = sample_runtime and l = "Some ?e", OF _ body kind] l2
    by (simp add: delay numeral_2_eq_2)
  have l0: "executeAgentNode_loop sample_runtime ?env 3 0 None
              = ([Attempt 0, Wait 1000, Attempt 1, Wait 2000, Attempt 2, Wait 4000, Attempt 3],
                 Inl (Some (ErrorObject ?default None)))"
    using loop_retry [where a = 0 and env = ?env and m = 3 and e = ?e
        and rt = sample_runtime and l = None, OF _ body kind] l1
    by (simp add: delay)
  then show "executeAgentNode_dispatching sample_runtime ?model ?keys
               (throttled_provider ?h 4) 3
          = ([Attempt 0, Wait 1000, Attempt 1, Wait 2000, Attempt 2, Wait 4000, Attempt 3],
             Inl (Some (ErrorObject ?default None)))"
    by (simp add: executeAgentNode_dispatching_def executeAgentNode_def)
qed

section \<open>Facts about the token bucket\<close>

lemma refillTokens_fields [simp]:
  "lastRefill (refillTokens now b) = now"
  "tokensPerSecond (refillTokens now b) = tokensPerSecond b"
  "maxTokens (refillTokens now b) = maxTokens b"
  by (simp_all add: refillTokens_def Let_def)

lemma refillTokens_upper: "tokens (refillTokens now b) \<le> maxTokens b"
  by (simp add: refillTokens_def Let_def)

lemma refillTokens_lower:
  assumes "0 \<le> tokens b" "0 \<le> maxTokens b" "0 \<le> tokensPerSecond b" "lastRefill b \<le> now"
  shows "0 \<le> tokens (refillTokens now b)"
proof -
  have "0 \<le> real_of_int (now - lastRefill b) / 1000 * tokensPerSecond b"
    using assms by simp
  then show ?thesis
    using assms by (simp add: refillTokens_def Let_def)
qed

lemma tryConsume_fields [simp]:
  "lastRefill (snd (tryConsume now b)) = now"
  "tokensPerSecond (snd (tryConsume now b)) = tokensPerSecond b"
  "maxTokens (snd (tryConsume now b)) = maxTokens b"
  by (simp_all add: tryConsume_def Let_def)

lemma tryConsume_upper:
  "tokens (snd (tryConsume now b)) \<le> maxTokens b"
  using refillTokens_upper [of now b] by (simp add: tryConsume_def Let_def)

lemma tryConsume_lower:
  assumes "0 \<le> tokens b" "0 \<le> maxTokens b" "0 \<le> tokensPerSecond b" "lastRefill b \<le> now"
  shows "0 \<le> tokens (snd (tryConsume now b))"
  using refillTokens_lower [OF assms] by (simp add: tryConsume_def Let_def)

lemma tryConsume_upper_ok: "upper_ok cap b \<Longrightarrow> upper_ok cap (snd (tryConsume now b))"
  using tryConsume_upper [of now b] by (simp add: upper_ok_def)

lemma tryConsume_lower_ok:
  "lower_ok b \<Longrightarrow> lastRefill b \<le> now \<Longrightarrow> lower_ok (snd (tryConsume now b))"
  using tryConsume_lower [of b now] by (simp add: lower_ok_def)

lemma waitForToken_loop_upper_ok:
  "upper_ok cap b \<Longrightarrow> upper_ok cap (snd (waitForToken_loop s tm ts b))"
proof (induction s tm ts b rule: waitForToken_loop.induct)
  case (3 s tm t t' ts b)
  obtain r b' where tc: "tryConsume t' b = (r, b')" by (cases "tryConsume t' b")
  have ok': "upper_ok cap b'"
    using tryConsume_upper_ok [OF "3.prems", of t'] tc by simp
  show ?case
  proof (cases "real_of_int (t - s) < tm \<and> \<not> r")
    case True
    then show ?thesis using "3.IH" [of r b'] tc ok' by simp
  next
    case False
    then show ?thesis using tc ok' "3.prems" by auto
  qed
qed simp_all

lemma waitForToken_loop_lower_ok:
  "lower_ok b \<Longrightarrow> sorted (lastRefill b # ts) \<Longrightarrow>
   lower_ok (snd (waitForToken_loop s tm ts b)) \<and>
   lastRefill (snd (waitForToken_loop s tm ts b)) \<in> insert (lastRefill b) (set ts)"
proof (induction s tm ts b rule: waitForToken_loop.induct)
  case (3 s tm t t' ts b)
  obtain r b' where tc: "tryConsume t' b = (r, b')" by (cases "tryConsume t' b")
  have le: "lastRefill b \<le> t'" using "3.prems" by simp
  have ok': "lower_ok b'"
    using tryConsume_lower_ok [OF "3.prems"(1) le] tc by simp
  have lr: "lastRefill b' = t'"
    using tryConsume_fields(1) [of t' b] tc by simp
  have srt: "sorted (lastRefill b' # ts)" using "3.prems" lr by simp
  show ?case
  proof (cases "real_of_int (t - s) < tm \<and> \<not> r")
    case True
    then show ?thesis
      using "3.IH" [of r b'] tc ok' srt lr by auto
  next
    case False
    then show ?thesis using tc ok' lr "3.prems" by auto
  qed
qed simp_all

lemma bucket_after_upper_ok: "upper_ok cap b \<Longrightarrow> upper_ok cap (bucket_after c b)"
proof (cases c)
  case (TryConsume t)
  assume "upper_ok cap b"
  then show ?thesis using TryConsume tryConsume_upper_ok by simp
next
  case (WaitForToken tm ts)
  assume "upper_ok cap b"
  then show ?thesis
    using WaitForToken waitForToken_loop_upper_ok by (cases ts) simp_all
next
  case (GetTokenCount t)
  assume "upper_ok cap b"
  then show ?thesis
    using GetTokenCount refillTokens_upper [of t b]
    by (simp add: getTokenCount_def Let_def upper_ok_def)
next
  case (GetTimeUntilNextToken t)
  assume "upper_ok cap b"
  then show ?thesis
    using GetTimeUntilNextToken refillTokens_upper [of t b]
    by (simp add: getTimeUntilNextToken_def Let_def upper_ok_def)
qed

lemma bucket_after_lower_ok:
  assumes "lower_ok b" "sorted (lastRefill b # call_times c)"
  shows "lower_ok (bucket_after c b) \<and>
         lastRefill (bucket_after c b) \<in> insert (lastRefill b) (set (call_times c))"
proof (cases c)
  case (TryConsume t)
  then show ?thesis using assms tryConsume_lower_ok [of b t] by simp
next
  case (WaitForToken tm ts)
  show ?thesis
  proof (cases ts)
    case Nil
    then show ?thesis using WaitForToken assms by simp
  next
    case (Cons s ts')
    have "sorted (lastRefill b # ts')" using assms WaitForToken Cons by auto
    then show ?thesis
      using waitForToken_loop_lower_ok [OF assms(1), of ts' s tm] WaitForToken Cons by auto
  qed
next
  case (GetTokenCount t)
  then show ?thesis
    using assms refillTokens_lower [of b t]
    by (simp add: getTokenCount_def Let_def lower_ok_def)
next
  case (GetTimeUntilNextToken t)
  then show ?thesis
    using assms refillTokens_lower [of b t]
    by (simp add: getTimeUntilNextToken_def Let_def lower_ok_def)
qed

lemma bucket_run_upper_ok: "upper_ok cap b \<Longrightarrow> upper_ok cap (bucket_run cs b)"
  by (induction cs arbitrary: b) (simp_all add: bucket_after_upper_ok)

lemma bucket_run_lower_ok:
  "lower_ok b \<Longrightarrow> sorted (lastRefill b # concat (map call_times cs)) \<Longrightarrow>
   lower_ok (bucket_run cs b)"
proof (induction cs arbitrary: b)
  case Nil
  then show ?case by simp
next
  case (Cons c cs)
  have s1: "sorted (lastRefill b # call_times c)"
    using Cons.prems(2) by (auto simp: sorted_append)
  note step = bucket_after_lower_ok [OF Cons.prems(1) s1]
  have "sorted (lastRefill (bucket_after c b) # concat (map call_times cs))"
    using Cons.prems(2) step by (auto simp: sorted_append)
  then show ?case using Cons.IH step by simp
qed

section \<open>C2: the contract of tryConsume\<close>

text \<open>
  The methods over exact reals are the methods over the numbers of the runtime, taken at
  exact arithmetic.
\<close>

lemma refillTokens_exact: "refillTokens_js exact now b = refillTokens now b"
  by (simp add: refillTokens_js_def refillTokens_def exact_def Let_def)

lemma tryConsume_exact: "tryConsume_js exact now b = tryConsume now b"
proof -
  have ops: "js_ge exact x (js_num exact 1) = (1 \<le> x)" "js_sub exact x (js_num exact 1) = x - 1"
    for x
    by (simp_all add: exact_def)
  show ?thesis
    by (simp add: tryConsume_js_def tryConsume_def refillTokens_exact ops Let_def)
qed

text \<open>
  C2. For every bucket state, every clock reading and whatever the number operations of
  the runtime compute, \<^verbatim>\<open>tryConsume()\<close> first refills \<open>tokens\<close> to
  \<open>min(maxTokens, tokens + elapsedSeconds * tokensPerSecond)\<close>, where \<open>elapsedSeconds\<close> is
  the time since the last refill divided by 1000 and every operation is the runtime's
  own, and records the reading as the last refill time. It returns true exactly when the
  refilled count is at least 1; it then holds the refilled count less one, and otherwise
  holds the refilled count itself (no deduction). The two read-only fields never change.
\<close>

theorem tryConsume_contract:
  "(let elapsedSeconds = js_div ar (js_num ar (now - lastRefill b)) (js_num ar 1000);
        refilled = js_min ar (maxTokens b)
                     (js_add ar (tokens b) (js_mul ar elapsedSeconds (tokensPerSecond b)));
        enough = js_ge ar refilled (js_num ar 1)
    in fst (tryConsume_js ar now b) = enough \<and>
       tokens (snd (tryConsume_js ar now b)) =
         (if enough then js_sub ar refilled (js_num ar 1) else refilled) \<and>
       lastRefill (snd (tryConsume_js ar now b)) = now \<and>
       tokensPerSecond (snd (tryConsume_js ar now b)) = tokensPerSecond b \<and>
       maxTokens (snd (tryConsume_js ar now b)) = maxTokens b)"
  by (simp add: tryConsume_js_def refillTokens_js_def Let_def)

section \<open>C3: what optimizePrompt preserves\<close>

text \<open>
  C3, as stated, fails. \<^verbatim>\<open>optimizePrompt\<close> is not idempotent: with the limit 10, the prompt
  \<^verbatim>\<open>hello world foo bar\<close> (one sentence, so the first sentence and the last three are the
  same one, joined twice, then cut to 2 of 8 words) becomes \<^verbatim>\<open>hello world...\<close>, which is still
  longer than the limit and becomes \<^verbatim>\<open>hello...\<close> when optimized again. Nor is the estimate
  of the output bounded by that of the input: with the limit 3, the prompt \<^verbatim>\<open>aa b\<close> of 4
  characters (estimate 1) becomes \<^verbatim>\<open>aa...\<close> of 5 characters (estimate 2).
\<close>

theorem optimizePrompt_counterexample:
  "optimizePrompt ''hello world foo bar'' 10 = ''hello world...'' \<and>
   optimizePrompt (optimizePrompt ''hello world foo bar'' 10) 10 = ''hello...'' \<and>
   3 < length ''aa b'' \<and>
   optimizePrompt ''aa b'' 3 = ''aa...'' \<and>
   estimateTokenCount ''aa b'' = 1 \<and>
   estimateTokenCount (optimizePrompt ''aa b'' 3) = 2"
proof -
  note defs = optimizePrompt_def importantSentences_def split_sentences_def split_char_def
    trim_def white_space_def sentence_mark_def Let_def
  have a: "optimizePrompt ''hello world foo bar'' 10 = ''hello world...''"
    by (simp add: defs)
  have b: "optimizePrompt ''hello world...'' 10 = ''hello...''"
    by (simp add: defs)
  have c: "optimizePrompt ''aa b'' 3 = ''aa...''"
    by (simp add: defs)
  have d: "estimateTokenCount ''aa b'' = 1" "estimateTokenCount ''aa...'' = 2"
    by (simp_all add: estimateTokenCount_def)
  show ?thesis by (simp add: a b c d)
qed

text \<open>
  C3, amended. A prompt whose length in characters is at most the limit is returned
  unchanged. Hence \<open>optimizePrompt (optimizePrompt t m) m = optimizePrompt t m\<close> whenever the
  first result is at most \<open>m\<close> characters long, in particular whenever \<open>t\<close> is; and the
  estimate of a prompt that fits is that of its result.
\<close>

theorem optimizePrompt_fits:
  "(length t \<le> m \<longrightarrow>
      optimizePrompt t m = t \<and>
      estimateTokenCount (optimizePrompt t m) = estimateTokenCount t) \<and>
   (length (optimizePrompt t m) \<le> m \<longrightarrow>
      optimizePrompt (optimizePrompt t m) m = optimizePrompt t m)"
  by (simp add: optimizePrompt_def)

theorem optimizePrompt_fits_witness:
  "length ''Summarise the page.'' \<le> (8000::nat) \<and>
   optimizePrompt ''Summarise the page.'' 8000 = ''Summarise the page.'' \<and>
   \<not> length ''A. B. C. D. E. F.'' \<le> (15::nat) \<and>
   optimizePrompt ''A. B. C. D. E. F.'' 15 = ''A.  D.  E.  F'' \<and>
   length (optimizePrompt ''A. B. C. D. E. F.'' 15) \<le> 15 \<and>
   optimizePrompt (optimizePrompt ''A. B. C. D. E. F.'' 15) 15
     = optimizePrompt ''A. B. C. D. E. F.'' 15"
proof -
  note defs = optimizePrompt_def importantSentences_def split_sentences_def split_char_def
    trim_def white_space_def sentence_mark_def Let_def
  have a: "optimizePrompt ''A. B. C. D. E. F.'' 15 = ''A.  D.  E.  F''"
    by (simp add: defs)
  have l: "length (optimizePrompt ''A. B. C. D. E. F.'' 15) \<le> 15"
    by (simp add: a)
  have f: "length ''Summarise the page.'' \<le> (8000::nat)" by simp
  have "optimizePrompt ''Summarise the page.'' 8000 = ''Summarise the page.''"
    using optimizePrompt_fits [of "''Summarise the page.''" 8000] f by blast
  moreover have "optimizePrompt (optimizePrompt ''A. B. C. D. E. F.'' 15) 15
      = optimizePrompt ''A. B. C. D. E. F.'' 15"
    using optimizePrompt_fits [of "''A. B. C. D. E. F.''" 15] l by blast
  ultimately show ?thesis using a l f by simp
qed

section \<open>C4: a failure that is not a rate-limit failure is not retried\<close>

text \<open>
  C4. When an attempt that is made fails with an error that is not classified as
  rate-limiting, the run throws that very error and the attempt is the last event of the
  run: no wait and no further attempt follow, and only attempts with a smaller index
  precede it. In particular, when a dispatch reaches the choice of the provider (nothing
  threw before, no mock response) and the provider of the model string has no configured
  key, \<^verbatim>\<open>executeAgentNodeInternal\<close> throws the missing-credentials error, which is not
  classified as rate-limiting, and an attempt that got its token and made this dispatch
  ends the run with that error.
\<close>

theorem other_failure_propagates:
  "(Attempt k \<in> set (fst (executeAgentNode rt env m)) \<and>
    attempt_body (env k) = Threw e \<and> \<not> isRateLimitMessage (errorMessage e) \<longrightarrow>
      snd (executeAgentNode rt env m) = Inl (Some e) \<and>
      (\<exists>pre. fst (executeAgentNode rt env m) = pre @ [Attempt k]
             \<and> (\<forall>j. Attempt j \<in> set pre \<longrightarrow> j < k))) \<and>
   (Attempt k \<in> set (fst (executeAgentNode rt env m)) \<and>
    hasToken (env k) \<and>
    internal (env k) = executeAgentNodeInternal rt' now w model (Some keys) \<and>
    prepare w = None \<and> mockOutput w = None \<and> assemble w = None \<and>
    \<not> provider_configured (fst (parseModel model)) keys \<longrightarrow>
      snd (executeAgentNode rt env m) =
        Inl (Some (ErrorObject
          ''Missing API key. Please add your LLM provider key in Settings.'' None)) \<and>
      (\<exists>pre. fst (executeAgentNode rt env m) = pre @ [Attempt k]
             \<and> (\<forall>j. Attempt j \<in> set pre \<longrightarrow> j < k)))"
proof (intro conjI impI)
  assume a: "Attempt k \<in> set (fst (executeAgentNode rt env m)) \<and>
    attempt_body (env k) = Threw e \<and> \<not> isRateLimitMessage (errorMessage e)"
  then have "snd (executeAgentNode rt env m) = Inl (Some e) \<and>
      (\<exists>pre. fst (executeAgentNode rt env m) = pre @ [Attempt k]
             \<and> (\<forall>j. Attempt j \<in> set pre \<longrightarrow> j < k))"
    using propagated_at [of k rt env m e] by blast
  then show "snd (executeAgentNode rt env m) = Inl (Some e)"
    and "\<exists>pre. fst (executeAgentNode rt env m) = pre @ [Attempt k]
             \<and> (\<forall>j. Attempt j \<in> set pre \<longrightarrow> j < k)"
    by blast+
next
  let ?e = "ErrorObject ''Missing API key. Please add your LLM provider key in Settings.'' None"
  assume a: "Attempt k \<in> set (fst (executeAgentNode rt env m)) \<and>
    hasToken (env k) \<and>
    internal (env k) = executeAgentNodeInternal rt' now w model (Some keys) \<and>
    prepare w = None \<and> mockOutput w = None \<and> assemble w = None \<and>
    \<not> provider_configured (fst (parseModel model)) keys"
  then have "internal (env k) = Threw ?e"
    using internal_missing_credentials [of w model keys rt' now] by simp
  then have body: "attempt_body (env k) = Threw ?e"
    using a by (simp add: attempt_body_def)
  have kind: "\<not> isRateLimitMessage (errorMessage ?e)"
    using missing_key_message_kind by simp
  have "snd (executeAgentNode rt env m) = Inl (Some ?e) \<and>
      (\<exists>pre. fst (executeAgentNode rt env m) = pre @ [Attempt k]
             \<and> (\<forall>j. Attempt j \<in> set pre \<longrightarrow> j < k))"
    using propagated_at [where k = k and env = env and rt = rt and m = m and e = ?e] body kind a
    by blast
  then show "snd (executeAgentNode rt env m) = Inl (Some ?e)"
    and "\<exists>pre. fst (executeAgentNode rt env m) = pre @ [Attempt k]
             \<and> (\<forall>j. Attempt j \<in> set pre \<longrightarrow> j < k)"
    by blast+
qed

lemma groq_not_configured:
  "\<not> provider_configured (fst (parseModel (Some ''groq/llama-70b'')))
        \<lparr>anthropic = Some ''sk-ant'', groq = None, openai = None, firecrawl = None\<rparr>"
  by (simp add: provider_configured_def parseModel_def key_set_def)

theorem other_failure_propagates_witness:
  "Attempt 0 \<in> set (fst (executeAgentNode sample_runtime no_groq_key 3)) \<and>
   hasToken (no_groq_key 0) \<and>
   \<not> provider_configured (fst (parseModel (Some ''groq/llama-70b'')))
        \<lparr>anthropic = Some ''sk-ant'', groq = None, openai = None, firecrawl = None\<rparr> \<and>
   snd (executeAgentNode sample_runtime no_groq_key 3) =
     Inl (Some (ErrorObject
       ''Missing API key. Please add your LLM provider key in Settings.'' None)) \<and>
   (\<exists>pre. fst (executeAgentNode sample_runtime no_groq_key 3) = pre @ [Attempt 0])"
proof -
  have made: "Attempt 0 \<in> set (fst (executeAgentNode sample_runtime no_groq_key 3))"
    by (rule first_attempt_made) simp
  have tok: "hasToken (no_groq_key 0)" by (simp add: no_groq_key_def)
  have int: "internal (no_groq_key 0) =
      executeAgentNodeInternal sample_runtime 0
        \<lparr>prepare = None, mockOutput = None, assemble = None,
          providerCall = Returned ''unused''\<rparr>
        (Some ''groq/llama-70b'')
        (Some \<lparr>anthropic = Some ''sk-ant'', groq = None, openai = None, firecrawl = None\<rparr>)"
    by (simp add: no_groq_key_def)
  have "snd (executeAgentNode sample_runtime no_groq_key 3) =
          Inl (Some (ErrorObject
            ''Missing API key. Please add your LLM provider key in Settings.'' None)) \<and>
        (\<exists>pre. fst (executeAgentNode sample_runtime no_groq_key 3) = pre @ [Attempt 0]
               \<and> (\<forall>j. Attempt j \<in> set pre \<longrightarrow> j < 0))"
    using other_failure_propagates [of 0 sample_runtime no_groq_key 3 _ sample_runtime 0
        "\<lparr>prepare = None, mockOutput = None, assemble = None,
          providerCall = Returned ''unused''\<rparr>"
        "Some ''groq/llama-70b''"
        "\<lparr>anthropic = Some ''sk-ant'', groq = None, openai = None, firecrawl = None\<rparr>"]
      made tok int groq_not_configured
    by simp
  then show ?thesis using made tok groq_not_configured by blast
qed

section \<open>C5: bounds on the token count\<close>

text \<open>
  C5, as stated, fails: the clock of the bucket is \<^verbatim>\<open>Date.now()\<close>, the wall clock, and a
  reading that lies before the last refill gives a negative elapsed time and takes tokens
  away. A bucket made with the default settings of the class (5 tokens per second,
  capacity 10) when the clock reads 3000, and asked for its count when the clock reads 0,
  holds -5 tokens.
\<close>

theorem bucket_negative_counterexample:
  "tokens (bucket_run [GetTokenCount 0] (newTokenBucket 3000 5 10)) = -5 \<and>
   \<not> within_bounds (bucket_run [GetTokenCount 0] (newTokenBucket 3000 5 10))"
  by (simp add: within_bounds_def getTokenCount_def refillTokens_def newTokenBucket_def Let_def)

text \<open>
  C5, amended. For a bucket made by the constructor and any sequence of calls of
  \<^verbatim>\<open>tryConsume\<close>, \<^verbatim>\<open>waitForToken\<close>, \<^verbatim>\<open>getTokenCount\<close> and \<^verbatim>\<open>getTimeUntilNextToken\<close>, at
  any clock readings whatever, the token count never exceeds the capacity; and when the
  refill rate and the capacity are not negative and the clock readings, from the
  construction on, never decrease, the token count never goes negative. A call of
  \<^verbatim>\<open>waitForToken\<close> that is still in progress is covered: its readings may be any prefix
  of what the whole call would observe.
\<close>

theorem bucket_bounds:
  "tokens (bucket_run cs (newTokenBucket t0 tps cap)) \<le> cap \<and>
   (0 \<le> tps \<and> 0 \<le> cap \<and> sorted (t0 # concat (map call_times cs))
      \<longrightarrow> within_bounds (bucket_run cs (newTokenBucket t0 tps cap)))"
proof -
  let ?b0 = "newTokenBucket t0 tps cap"
  have up0: "upper_ok cap ?b0"
    by (simp add: upper_ok_def newTokenBucket_def)
  have up: "upper_ok cap (bucket_run cs ?b0)"
    using bucket_run_upper_ok [OF up0] .
  have low: "0 \<le> tokens (bucket_run cs ?b0)"
    if "0 \<le> tps" "0 \<le> cap" "sorted (t0 # concat (map call_times cs))"
  proof -
    have "lower_ok ?b0" using that by (simp add: lower_ok_def newTokenBucket_def)
    moreover have "sorted (lastRefill ?b0 # concat (map call_times cs))"
      using that by (simp add: newTokenBucket_def)
    ultimately have "lower_ok (bucket_run cs ?b0)" by (rule bucket_run_lower_ok)
    then show ?thesis by (simp add: lower_ok_def)
  qed
  show ?thesis using up low by (auto simp: upper_ok_def within_bounds_def)
qed

theorem bucket_bounds_witness:
  "sorted (0 # concat (map call_times
       [TryConsume 0, WaitForToken 30000 [100, 100, 200], GetTimeUntilNextToken 300,
        GetTokenCount 1000])) \<and>
   within_bounds (bucket_run
       [TryConsume 0, WaitForToken 30000 [100, 100, 200], GetTimeUntilNextToken 300,
        GetTokenCount 1000] (newTokenBucket 0 3 5)) \<and>
   tokens (bucket_run
       [TryConsume 0, WaitForToken 30000 [100, 100, 200], GetTimeUntilNextToken 300,
        GetTokenCount 1000] (newTokenBucket 0 3 5)) = 5"
proof -
  have s: "sorted ((0::int) # concat (map call_times
       [TryConsume 0, WaitForToken 30000 [100, 100, 200], GetTimeUntilNextToken 300,
        GetTokenCount 1000]))"
    by simp
  have v: "tokens (bucket_run
       [TryConsume 0, WaitForToken 30000 [100, 100, 200], GetTimeUntilNextToken 300,
        GetTokenCount 1000] (newTokenBucket 0 3 5)) = 5"
    by (simp add: tryConsume_def getTokenCount_def getTimeUntilNextToken_def
        refillTokens_def newTokenBucket_def Let_def)
  show ?thesis
    using s v bucket_bounds [of "[TryConsume 0, WaitForToken 30000 [100, 100, 200],
        GetTimeUntilNextToken 300, GetTokenCount 1000]" 0 3 5]
    by simp
qed

section \<open>C6: the retry decision\<close>

text \<open>
  C6. \<^verbatim>\<open>shouldRetry(d, r)\<close> is false when \<open>r = 0\<close>, whatever \<open>d\<close> is (also for a missing
  descriptor); for a descriptor \<open>d\<close> that is present and a retry count \<open>r\<close>, it is true
  exactly when \<open>r\<close> is positive and it is not the case that the remaining tokens of \<open>d\<close>
  are 0 and the reset timestamp of \<open>d\<close> is a date more than 5 minutes (300000 ms) after
  the current time. So it is false when the remaining tokens are 0 and the reset is more
  than 5 minutes away, and true in every other case with retries left.
\<close>

theorem shouldRetry_decision:
  "\<not> shouldRetry rt now info 0 \<and>
   \<not> shouldRetry rt now None r \<and>
   shouldRetry rt now (Some d) r =
     (0 < r \<and>
      \<not> (remainingTokens d = Some 0 \<and>
         (\<exists>t. dateTime rt (resetTime d) = Some t \<and> 5 * 60 * 1000 < t - now)))"
  by (auto simp: shouldRetry_def js_greater_def timeUntilReset_def
      split: option.splits)

section \<open>C7: unknown tool-server ids are dropped\<close>

lemma query_by_ids_strings:
  "failure db = None \<Longrightarrow>
   query_by_ids db (map JStr names) =
     Inr (filter (\<lambda>row. prop_get row ''id'' \<in> JStr ` set names) (mcpServer db))"
proof -
  have "(\<lambda>row. is_string (prop_get row ''id'') \<and> prop_get row ''id'' \<in> set (map JStr names))
          = (\<lambda>row. prop_get row ''id'' \<in> JStr ` set names)"
    by auto
  moreover assume "failure db = None"
  ultimately show ?thesis by (simp add: query_by_ids_def)
qed

text \<open>
  C7. Resolution never throws: whatever the store and the reference list, the resolver
  returns a list. When the store answers, resolving a list of ids returns the
  configurations of exactly those rows of the store whose id is in the list, so an id
  with no row contributes nothing. Resolving \<^verbatim>\<open>["a","missing"]\<close> against a store whose only
  row has the id \<^verbatim>\<open>a\<close> sends one batch to the store and returns exactly one configuration,
  that of the row.
\<close>

theorem unknown_ids_dropped:
  "(\<exists>configs. snd (resolveMCPServers db serverIds) = Inr configs) \<and>
   (failure db = None \<longrightarrow>
      snd (resolveMCPServers db (Some (map JStr names))) =
        Inr (map to_tool_config
               (filter (\<lambda>row. prop_get row ''id'' \<in> JStr ` set names) (mcpServer db)))) \<and>
   (failure db = None \<and> mcpServer db = [server] \<and> prop_get server ''id'' = JStr ''a'' \<longrightarrow>
      resolveMCPServers db (Some [JStr ''a'', JStr ''missing'']) =
        ([[JStr ''a'', JStr ''missing'']], Inr [to_tool_config server]))"
proof (intro conjI impI)
  show "\<exists>configs. snd (resolveMCPServers db serverIds) = Inr configs"
    by (auto simp: resolveMCPServers_def split: option.splits list.splits sum.splits)
next
  assume up: "failure db = None"
  show "snd (resolveMCPServers db (Some (map JStr names))) =
        Inr (map to_tool_config
               (filter (\<lambda>row. prop_get row ''id'' \<in> JStr ` set names) (mcpServer db)))"
  proof (cases names)
    case Nil
    then show ?thesis by (simp add: resolveMCPServers_def)
  next
    case (Cons n ns)
    have "query_by_ids db (JStr n # map JStr ns) =
            Inr (filter (\<lambda>row. prop_get row ''id'' \<in> JStr ` set names) (mcpServer db))"
      using query_by_ids_strings [OF up, of names] Cons by simp
    then show ?thesis using Cons by (simp add: resolveMCPServers_def)
  qed
next
  assume a: "failure db = None \<and> mcpServer db = [server] \<and> prop_get server ''id'' = JStr ''a''"
  have "query_by_ids db [JStr ''a'', JStr ''missing''] = Inr [server]"
    using a by (simp add: query_by_ids_def)
  then show "resolveMCPServers db (Some [JStr ''a'', JStr ''missing'']) =
        ([[JStr ''a'', JStr ''missing'']], Inr [to_tool_config server])"
    by (simp add: resolveMCPServers_def)
qed

theorem unknown_ids_dropped_witness:
  "failure store_a = None \<and>
   mcpServer store_a = [[(''id'', JStr ''a''), (''name'', JStr ''search''),
                          (''url'', JStr ''https://mcp.example/a'')]] \<and>
   resolveMCPServers store_a (Some [JStr ''a'', JStr ''missing'']) =
     ([[JStr ''a'', JStr ''missing'']],
      Inr [JObj [(''name'', JStr ''search''),
                 (''url'', JStr ''https://mcp.example/a''),
                 (''description'', JUndefined),
                 (''authType'', JUndefined),
                 (''accessToken'', JUndefined),
                 (''availableTools'', JArr []),
                 (''headers'', JUndefined)]]) \<and>
   length (projr (snd (resolveMCPServers store_a (Some [JStr ''a'', JStr ''missing''])))) = 1"
proof -
  let ?server = "[(''id'', JStr ''a''), (''name'', JStr ''search''),
                  (''url'', JStr ''https://mcp.example/a'')]"
  have s: "failure store_a = None \<and> mcpServer store_a = [?server] \<and>
           prop_get ?server ''id'' = JStr ''a''"
    by (simp add: store_a_def)
  have "resolveMCPServers store_a (Some [JStr ''a'', JStr ''missing'']) =
          ([[JStr ''a'', JStr ''missing'']], Inr [to_tool_config ?server])"
    using unknown_ids_dropped [of store_a _ _ ?server] s by blast
  then show ?thesis using s by (simp add: to_tool_config_def)
qed

section \<open>Facts about the approvals table\<close>

lemma table_after_row:
  assumes "i < length tbl"
  shows "i < length (table_after c tbl) \<and>
         approvalId (table_after c tbl ! i) = approvalId (tbl ! i) \<and>
         (status (tbl ! i) \<noteq> pending \<longrightarrow> status (table_after c tbl ! i) \<noteq> pending) \<and>
         (\<not> writes_status (approvalId (tbl ! i)) c \<longrightarrow>
            status (table_after c tbl ! i) = status (tbl ! i))"
proof (cases c)
  case (CreateApproval newId now approval)
  then show ?thesis using assms by (simp add: createApproval_def Let_def nth_append)
next
  case (UpdateApprovalStatus now aid d responder)
  have "decided d \<noteq> pending" by (cases d) simp_all
  then show ?thesis
    using assms UpdateApprovalStatus by (simp add: updateApprovalStatus_def Let_def)
qed (use assms in simp_all)

lemma approvals_run_row:
  assumes "i < length tbl"
  shows "i < length (approvals_run calls tbl) \<and>
         approvalId (approvals_run calls tbl ! i) = approvalId (tbl ! i) \<and>
         (status (tbl ! i) \<noteq> pending \<longrightarrow> status (approvals_run calls tbl ! i) \<noteq> pending) \<and>
         (\<not> list_ex (writes_status (approvalId (tbl ! i))) calls \<longrightarrow>
            status (approvals_run calls tbl ! i) = status (tbl ! i))"
  using assms
proof (induction calls arbitrary: tbl)
  case Nil
  then show ?case by simp
next
  case (Cons c cs)
  note step = table_after_row [OF Cons.prems, of c]
  then have "i < length (table_after c tbl)" by simp
  note rest = Cons.IH [OF this]
  show ?case using step rest by simp
qed

lemma update_sets_status:
  assumes "i < length tbl" "approvalId (tbl ! i) = aid"
  shows "status (snd (updateApprovalStatus now aid d responder tbl) ! i) = decided d"
  using assms by (simp add: updateApprovalStatus_def Let_def)

section \<open>C8: the status of an approval record\<close>

text \<open>
  C8, as stated, fails: \<^verbatim>\<open>updateApprovalStatus\<close> rewrites the status of the record with the
  given external id whatever its present status is. A record approved by one call is
  rejected by the next, so its status is written twice and changes after it has reached
  a terminal state.
\<close>

theorem approval_flipped_counterexample:
  "status (approvals_run
      [UpdateApprovalStatus ''2025-01-01T00:01:00.000Z'' ''apr-1'' Approved (Some ''ann'')]
      [sample_approval] ! 0) = approved \<and>
   status (approvals_run
      [UpdateApprovalStatus ''2025-01-01T00:01:00.000Z'' ''apr-1'' Approved (Some ''ann''),
       UpdateApprovalStatus ''2025-01-01T00:02:00.000Z'' ''apr-1'' Rejected (Some ''bob'')]
      [sample_approval] ! 0) = rejected"
  by (simp add: updateApprovalStatus_def sample_approval_def Let_def)

text \<open>
  C8, amended. For every table, every record in it and every sequence of calls of the six
  functions of the approvals module: the record is never deleted and keeps its place and
  its external id; once its status is not \<^verbatim>\<open>pending\<close> it is never \<^verbatim>\<open>pending\<close> again; and its
  status is the same as before unless one of the calls is an \<^verbatim>\<open>updateApprovalStatus\<close> for its
  external id. Such a call sets the status to the given value, \<^verbatim>\<open>approved\<close> or
  \<^verbatim>\<open>rejected\<close>, whatever the status was.
\<close>

theorem approval_status_transitions:
  "i < length tbl \<longrightarrow>
     i < length (approvals_run calls tbl) \<and>
     approvalId (approvals_run calls tbl ! i) = approvalId (tbl ! i) \<and>
     (status (tbl ! i) \<noteq> pending \<longrightarrow> status (approvals_run calls tbl ! i) \<noteq> pending) \<and>
     (\<not> list_ex (writes_status (approvalId (tbl ! i))) calls \<longrightarrow>
        status (approvals_run calls tbl ! i) = status (tbl ! i)) \<and>
     status (snd (updateApprovalStatus now (approvalId (tbl ! i)) d responder tbl) ! i) = decided d"
  using approvals_run_row [of i tbl calls] update_sets_status [of i tbl _ now d responder]
  by blast

theorem approval_status_transitions_witness:
  "(0::nat) < length [sample_approval] \<and>
   \<not> list_ex (writes_status (approvalId ([sample_approval] ! 0)))
       [WatchApprovalStatus ''apr-1'', GetPendingApprovals ''wf-1'', QueryFailed,
        UpdateApprovalStatus ''2025-01-01T00:01:00.000Z'' ''apr-2'' Approved None] \<and>
   status (approvals_run
       [WatchApprovalStatus ''apr-1'', GetPendingApprovals ''wf-1'', QueryFailed,
        UpdateApprovalStatus ''2025-01-01T00:01:00.000Z'' ''apr-2'' Approved None]
       [sample_approval] ! 0) = pending \<and>
   status (snd (updateApprovalStatus ''2025-01-01T00:01:00.000Z'' ''apr-1'' Approved None
       [sample_approval]) ! 0) = approved"
proof -
  let ?calls = "[WatchApprovalStatus ''apr-1'', GetPendingApprovals ''wf-1'', QueryFailed,
        UpdateApprovalStatus ''2025-01-01T00:01:00.000Z'' ''apr-2'' Approved None]"
  have len: "(0::nat) < length [sample_approval]" by simp
  have aid: "approvalId ([sample_approval] ! 0) = ''apr-1''"
    by (simp add: sample_approval_def)
  have st: "status ([sample_approval] ! 0) = pending"
    by (simp add: sample_approval_def)
  have nw: "\<not> list_ex (writes_status (approvalId ([sample_approval] ! 0))) ?calls"
    by (simp add: sample_approval_def)
  have "status (approvals_run ?calls [sample_approval] ! 0) = status ([sample_approval] ! 0) \<and>
        status (snd (updateApprovalStatus ''2025-01-01T00:01:00.000Z''
          (approvalId ([sample_approval] ! 0)) Approved None [sample_approval]) ! 0)
          = decided Approved"
    using approval_status_transitions [of 0 "[sample_approval]" ?calls
        "''2025-01-01T00:01:00.000Z''" Approved None] len nw
    by blast
  then show ?thesis using len nw st by (simp add: sample_approval_def)
qed

section \<open>Facts about properties\<close>

lemma prop_get_set_same [simp]: "prop_get (prop_set ps k v) k = v"
  by (induction ps) auto

lemma prop_get_set_other [simp]: "k' \<noteq> k \<Longrightarrow> prop_get (prop_set ps k v) k' = prop_get ps k'"
  by (induction ps) auto

lemma prop_get_delete_other [simp]:
  "k' \<noteq> k \<Longrightarrow> prop_get (prop_delete ps k) k' = prop_get ps k'"
  by (induction ps) (auto simp: prop_delete_def)

lemma has_prop_delete [simp]: "\<not> has_prop (prop_delete ps k) k"
  by (auto simp: has_prop_def prop_delete_def)

lemma has_prop_delete_other [simp]:
  "k' \<noteq> k \<Longrightarrow> has_prop (prop_delete ps k) k' = has_prop ps k'"
  by (force simp: has_prop_def prop_delete_def)

lemma keys_prop_set: "fst ` set (prop_set ps k v) = insert k (fst ` set ps)"
proof (induction ps)
  case Nil
  show ?case by simp
next
  case (Cons p ps)
  obtain k' v' where p: "p = (k', v')" by (cases p)
  show ?case using Cons.IH by (cases "k' = k") (simp_all add: p insert_commute)
qed

lemma has_prop_set [simp]: "has_prop (prop_set ps k v) k' = (k' = k \<or> has_prop ps k')"
  by (simp add: has_prop_def keys_prop_set)

lemma migrate_mcpTools_keeps_tools [simp]:
  "prop_get (migrate_mcpTools ps) ''tools'' = prop_get ps ''tools''"
  by (simp add: migrate_mcpTools_def split: jsval.splits)

lemma ensure_array_keeps_tools [simp]:
  "prop_get (ensure_array ps) ''tools'' = prop_get ps ''tools''"
  "has_prop (ensure_array ps) ''tools'' = has_prop ps ''tools''"
  by (simp_all add: ensure_array_def split: jsval.splits)

lemma migrate_tools_of_ids:
  assumes "prop_get ps ''tools'' = JArr ids" "list_all is_string ids"
  shows "prop_get (migrate_tools ps) ''mcpServerIds'' = JArr ids"
    and "\<not> has_prop (migrate_tools ps) ''tools''"
  using assms by (simp_all add: migrate_tools_def)

lemma migrate_tools_of_objects:
  assumes "prop_get ps ''tools'' = JArr ts" "\<not> list_all is_string ts"
  shows "migrate_tools ps = ps"
  using assms by (simp add: migrate_tools_def)

section \<open>C9: migration of a legacy node configuration\<close>

text \<open>
  C9, as stated, fails in its second half: a configuration whose \<^verbatim>\<open>tools\<close> field holds a
  full tool object is not always returned unchanged, because the rule for the other
  legacy field still applies to it. With \<^verbatim>\<open>tools: [{name: "search"}]\<close> and
  \<^verbatim>\<open>mcpTools: ["id1"]\<close> the result has lost \<^verbatim>\<open>mcpTools\<close> and gained
  \<^verbatim>\<open>mcpServerIds: ["id1"]\<close>.
\<close>

theorem migrate_changes_config_counterexample:
  "migrateMCPData (Some [(''tools'', JArr [JObj [(''name'', JStr ''search'')]]),
                         (''mcpTools'', JArr [JStr ''id1''])])
     = Some [(''tools'', JArr [JObj [(''name'', JStr ''search'')]]),
             (''mcpServerIds'', JArr [JStr ''id1''])] \<and>
   migrateMCPData (Some [(''tools'', JArr [JObj [(''name'', JStr ''search'')]]),
                         (''mcpTools'', JArr [JStr ''id1''])])
     \<noteq> Some [(''tools'', JArr [JObj [(''name'', JStr ''search'')]]),
             (''mcpTools'', JArr [JStr ''id1''])]"
  by (simp add: migrateMCPData_def migrate_mcpTools_def migrate_tools_def ensure_array_def
      prop_delete_def)

text \<open>
  C9, amended. For every configuration object: when its \<^verbatim>\<open>tools\<close> field is an array whose
  elements are all strings, the result has \<^verbatim>\<open>mcpServerIds\<close> equal to that array and no
  \<^verbatim>\<open>tools\<close> field. When its \<^verbatim>\<open>tools\<close> field is an array with an element that is not a
  string, the result keeps that \<^verbatim>\<open>tools\<close> field as it is; and the whole configuration is
  returned unchanged provided that, in addition, its \<^verbatim>\<open>mcpTools\<close> field is not an array
  holding a string and its \<^verbatim>\<open>mcpServerIds\<close> field is an array or absent (or another value
  that counts as false).
\<close>

theorem migrate_tools_field:
  "(prop_get config ''tools'' = JArr ids \<and> list_all is_string ids \<longrightarrow>
      (\<exists>migrated. migrateMCPData (Some config) = Some migrated \<and>
         prop_get migrated ''mcpServerIds'' = JArr ids \<and> \<not> has_prop migrated ''tools'')) \<and>
   (prop_get config ''tools'' = JArr ts \<and> \<not> list_all is_string ts \<longrightarrow>
      (\<exists>migrated. migrateMCPData (Some config) = Some migrated \<and>
         prop_get migrated ''tools'' = JArr ts) \<and>
      ((\<forall>xs. prop_get config ''mcpTools'' = JArr xs \<longrightarrow> \<not> list_ex is_string xs) \<and>
       ((\<exists>xs. prop_get config ''mcpServerIds'' = JArr xs)
          \<or> \<not> truthy (prop_get config ''mcpServerIds'')) \<longrightarrow>
         migrateMCPData (Some config) = Some config))"
proof (intro conjI impI)
  assume a: "prop_get config ''tools'' = JArr ids \<and> list_all is_string ids"
  let ?m1 = "migrate_mcpTools config"
  have t: "prop_get ?m1 ''tools'' = JArr ids" using a by simp
  have ids: "prop_get (migrate_tools ?m1) ''mcpServerIds'' = JArr ids"
    and gone: "\<not> has_prop (migrate_tools ?m1) ''tools''"
    using migrate_tools_of_ids [OF t] a by simp_all
  have "ensure_array (migrate_tools ?m1) = migrate_tools ?m1"
    using ids by (simp add: ensure_array_def)
  then have "migrateMCPData (Some config) = Some (migrate_tools ?m1)"
    by (simp add: migrateMCPData_def)
  then show "\<exists>migrated. migrateMCPData (Some config) = Some migrated \<and>
         prop_get migrated ''mcpServerIds'' = JArr ids \<and> \<not> has_prop migrated ''tools''"
    using ids gone by simp
next
  assume a: "prop_get config ''tools'' = JArr ts \<and> \<not> list_all is_string ts"
  let ?m1 = "migrate_mcpTools config"
  have "prop_get ?m1 ''tools'' = JArr ts" using a by simp
  then have "migrate_tools ?m1 = ?m1" using a by (simp add: migrate_tools_of_objects)
  then have "prop_get (ensure_array (migrate_tools ?m1)) ''tools'' = JArr ts"
    using a by simp
  then show "\<exists>migrated. migrateMCPData (Some config) = Some migrated \<and>
         prop_get migrated ''tools'' = JArr ts"
    by (simp add: migrateMCPData_def)
next
  assume a: "prop_get config ''tools'' = JArr ts \<and> \<not> list_all is_string ts"
    and b: "(\<forall>xs. prop_get config ''mcpTools'' = JArr xs \<longrightarrow> \<not> list_ex is_string xs) \<and>
       ((\<exists>xs. prop_get config ''mcpServerIds'' = JArr xs)
          \<or> \<not> truthy (prop_get config ''mcpServerIds''))"
  have m1: "migrate_mcpTools config = config"
    using b by (auto simp: migrate_mcpTools_def split: jsval.splits)
  have m2: "migrate_tools config = config"
    using a by (simp add: migrate_tools_of_objects)
  have m3: "ensure_array config = config"
    using b by (auto simp: ensure_array_def split: jsval.splits)
  show "migrateMCPData (Some config) = Some config"
    by (simp add: migrateMCPData_def m1 m2 m3)
qed

theorem migrate_tools_field_witness:
  "prop_get [(''model'', JStr ''groq/llama-70b''), (''tools'', JArr [JStr ''id1'', JStr ''id2''])]
     ''tools'' = JArr [JStr ''id1'', JStr ''id2''] \<and>
   list_all is_string [JStr ''id1'', JStr ''id2''] \<and>
   migrateMCPData
     (Some [(''model'', JStr ''groq/llama-70b''), (''tools'', JArr [JStr ''id1'', JStr ''id2''])])
     = Some [(''model'', JStr ''groq/llama-70b''),
             (''mcpServerIds'', JArr [JStr ''id1'', JStr ''id2''])] \<and>
   \<not> list_all is_string [JObj [(''name'', JStr ''search'')]] \<and>
   migrateMCPData (Some [(''tools'', JArr [JObj [(''name'', JStr ''search'')]])])
     = Some [(''tools'', JArr [JObj [(''name'', JStr ''search'')]])]"
proof -
  let ?legacy = "[(''model'', JStr ''groq/llama-70b''),
                  (''tools'', JArr [JStr ''id1'', JStr ''id2''])]"
  let ?full = "[(''tools'', JArr [JObj [(''name'', JStr ''search'')]])]"
  have run: "migrateMCPData (Some ?legacy)
               = Some [(''model'', JStr ''groq/llama-70b''),
                       (''mcpServerIds'', JArr [JStr ''id1'', JStr ''id2''])]"
    by (simp add: migrateMCPData_def migrate_mcpTools_def migrate_tools_def ensure_array_def
        prop_delete_def)
  have "migrateMCPData (Some ?full) = Some ?full"
    using migrate_tools_field [of ?full _ "[JObj [(''name'', JStr ''search'')]]"]
    by simp
  then show ?thesis using run by simp
qed

section \<open>C10: a list that starts with an inline configuration is passed through\<close>

text \<open>
  C10. For every reference list whose first element is an object, whatever the store and
  whatever the other elements are, \<^verbatim>\<open>resolveMCPServers\<close> sends no query to the store and
  returns the whole list unchanged; bare ids after the first element stay as they are.
\<close>

theorem inline_first_passes_through:
  "resolveMCPServers db (Some (JObj config # others)) = ([], Inr (JObj config # others))"
  by (simp add: resolveMCPServers_def)

end
